theory Spec2Isabelle
  imports Complex_Main
begin

section \<open>The serving gateway of IndexTTS (api.py, config_api.py)\<close>

text \<open>
  A shallow embedding of the request handlers of \<^verbatim>\<open>src/api.py\<close>. The handlers are
  state transformers over the module's globals (\<^verbatim>\<open>tts_instance\<close>, \<^verbatim>\<open>stats\<close>) and the
  file system; every \<^verbatim>\<open>raise\<close> is the \<open>Inl\<close> branch of the result. The synthesis
  engine, the clock and the random identifiers are inputs of the model. Time stamps
  are Python floats; they are modelled as real numbers.
\<close>

subsection \<open>Statistics (api.py, lines 84-90 and 156-167)\<close>

record stats =
  total_requests :: int
  successful_requests :: int
  failed_requests :: int
  response_times :: "real list"
  start_time :: real

definition init_stats :: "real \<Rightarrow> stats" where
  "init_stats now =
     \<lparr>total_requests = 0, successful_requests = 0, failed_requests = 0,
      response_times = [], start_time = now\<rparr>"

text \<open>Python's \<^verbatim>\<open>xs[-n:]\<close> for a positive \<open>n\<close>: the last \<open>n\<close> elements, all of them when
  the list is shorter.\<close>

definition last_n :: "nat \<Rightarrow> 'a list \<Rightarrow> 'a list" where
  "last_n n xs = drop (length xs - n) xs"

definition update_stats :: "bool \<Rightarrow> real \<Rightarrow> stats \<Rightarrow> stats" where
  "update_stats success response_time st =
     (let st1 = st\<lparr>total_requests := total_requests st + 1\<rparr>;
          st2 = (if success
                 then st1\<lparr>successful_requests := successful_requests st1 + 1\<rparr>
                 else st1\<lparr>failed_requests := failed_requests st1 + 1\<rparr>);
          st3 = st2\<lparr>response_times := response_times st2 @ [response_time]\<rparr>
      in if length (response_times st3) > 1000
         then st3\<lparr>response_times := last_n 1000 (response_times st3)\<rparr>
         else st3)"

text \<open>A sequence of recording operations, applied in order.\<close>

fun record_all :: "(bool \<times> real) list \<Rightarrow> stats \<Rightarrow> stats" where
  "record_all [] st = st"
| "record_all ((ok, t) # rs) st = record_all rs (update_stats ok t st)"

subsection \<open>Configuration (config_api.py, lines 50-51, 98-100, 102-130)\<close>

record config =
  max_file_size :: int
  allowed_audio_formats :: "string list"
  auto_cleanup :: bool
  max_file_age :: int

definition ALLOWED_AUDIO_FORMATS :: "string list" where
  "ALLOWED_AUDIO_FORMATS = [''.wav'', ''.mp3'', ''.flac'', ''.m4a'']"

text \<open>\<^verbatim>\<open>get_config\<close>: the three values read from the environment (\<^verbatim>\<open>MAX_FILE_SIZE\<close> in
  megabytes, \<^verbatim>\<open>AUTO_CLEANUP\<close>, \<^verbatim>\<open>MAX_FILE_AGE\<close>) are its arguments; the defaults are 50,
  false and 86400.\<close>

definition get_config :: "int \<Rightarrow> bool \<Rightarrow> int \<Rightarrow> config" where
  "get_config max_file_size_mb auto_cleanup_env max_file_age_env =
     \<lparr>max_file_size = max_file_size_mb * 1024 * 1024,
      allowed_audio_formats = ALLOWED_AUDIO_FORMATS,
      auto_cleanup = auto_cleanup_env,
      max_file_age = max_file_age_env\<rparr>"

definition default_config :: config where
  "default_config = get_config 50 False 86400"

subsection \<open>Exceptions\<close>

text \<open>The texts of the source are Chinese literals; each is named here by its meaning:
  \<open>TTS_not_initialised\<close> (line 153), \<open>Reference_audio_missing\<close> (lines 248, 300, 423),
  \<open>Unsupported_format\<close> (line 350), \<open>File_too_large\<close> (line 357), \<open>File_not_found\<close>
  (lines 394, 513), \<open>Cleanup_not_enabled\<close> (line 527). A \<open>prefix\<close> is the literal an
  \<^verbatim>\<open>except Exception\<close> block puts before \<^verbatim>\<open>str(e)\<close> (lines 283, 336, 387, 477, 520, 556).\<close>

datatype message =
    TTS_not_initialised
  | Reference_audio_missing
  | Unsupported_format
  | File_too_large
  | File_not_found
  | Cleanup_not_enabled

datatype prefix =
    TTS_failed
  | Fast_TTS_failed
  | Upload_failed
  | Batch_failed
  | Delete_failed
  | Cleanup_failed

datatype os_error = FileNotFoundError | NotADirectoryError | FileExistsError | IsADirectoryError

text \<open>\<open>Lit m\<close> is a literal text, \<open>Str e\<close> is \<^verbatim>\<open>str(e)\<close> and \<open>Prefixed p e\<close> is the f-string
  \<^verbatim>\<open>f"<p>: {str(e)}"\<close>. \<open>EngineError\<close> is whatever the synthesis engine raises.\<close>

datatype exc =
    HTTPException nat pytext
  | OSError os_error
  | EngineError string
and pytext =
    Lit message
  | Str exc
  | Prefixed prefix exc

fun status_code :: "exc \<Rightarrow> nat option" where
  "status_code (HTTPException c d) = Some c"
| "status_code (OSError e) = None"
| "status_code (EngineError m) = None"

subsection \<open>Strings and pure paths (pathlib)\<close>

text \<open>\<^verbatim>\<open>s.split(c)\<close>.\<close>

fun split_on :: "char \<Rightarrow> string \<Rightarrow> string list" where
  "split_on c [] = [[]]"
| "split_on c (x # xs) =
     (if x = c then [] # split_on c xs
      else (case split_on c xs of [] \<Rightarrow> [[x]] | w # ws \<Rightarrow> (x # w) # ws))"

fun join_slash :: "string list \<Rightarrow> string" where
  "join_slash [] = []"
| "join_slash [x] = x"
| "join_slash (x # y # ys) = x @ ''/'' @ join_slash (y # ys)"

text \<open>\<^verbatim>\<open>str.lower\<close> on the ASCII letters. (No other character lowers to a character of
  the allowed suffixes.)\<close>

definition lower_char :: "char \<Rightarrow> char" where
  "lower_char c =
     (case map_of (zip ''ABCDEFGHIJKLMNOPQRSTUVWXYZ'' ''abcdefghijklmnopqrstuvwxyz'') c of
        None \<Rightarrow> c
      | Some l \<Rightarrow> l)"

definition lower :: "string \<Rightarrow> string" where
  "lower s = map lower_char s"

text \<open>A \<^verbatim>\<open>PurePosixPath\<close>: whether it is rooted, and its components. The constructor
  drops empty and \<^verbatim>\<open>.\<close> components and keeps \<^verbatim>\<open>..\<close>; joining with a rooted path
  gives that path.\<close>

record pure_path =
  is_absolute :: bool
  parts :: "string list"

definition Path :: "string \<Rightarrow> pure_path" where
  "Path s =
     \<lparr>is_absolute = (case s of [] \<Rightarrow> False | c # _ \<Rightarrow> c = CHR ''/''),
      parts = filter (\<lambda>c. c \<noteq> [] \<and> c \<noteq> ''.'') (split_on CHR ''/'' s)\<rparr>"

definition truediv :: "pure_path \<Rightarrow> string \<Rightarrow> pure_path" where
  "truediv p s =
     (let q = Path s
      in if is_absolute q then q
         else \<lparr>is_absolute = is_absolute p, parts = parts p @ parts q\<rparr>)"

definition str_path :: "pure_path \<Rightarrow> string" where
  "str_path p =
     (if is_absolute p then ''/'' @ join_slash (parts p)
      else if parts p = [] then ''.''
      else join_slash (parts p))"

definition name :: "pure_path \<Rightarrow> string" where
  "name p = (if parts p = [] then [] else last (parts p))"

text \<open>\<^verbatim>\<open>PurePath.suffix\<close>: with \<^verbatim>\<open>i = name.rfind('.')\<close>, the text \<^verbatim>\<open>name[i:]\<close> when
  \<^verbatim>\<open>0 < i < len(name) - 1\<close>, else the empty string.\<close>

definition suffix :: "pure_path \<Rightarrow> string" where
  "suffix p =
     (let nm = name p;
          ext = rev (takeWhile (\<lambda>c. c \<noteq> CHR ''.'') (rev nm))
      in if CHR ''.'' \<in> set nm \<and> length ext + 1 < length nm \<and> ext \<noteq> []
         then CHR ''.'' # ext else [])"

definition ends_with :: "string \<Rightarrow> string \<Rightarrow> bool" where
  "ends_with sfx s = (length sfx \<le> length s \<and> drop (length s - length sfx) s = sfx)"

text \<open>\<^verbatim>\<open>str(i)\<close> for a natural number.\<close>

definition digit_char :: "nat \<Rightarrow> char" where
  "digit_char n = ''0123456789'' ! n"

fun str_nat :: "nat \<Rightarrow> string" where
  "str_nat n = (if n < 10 then [digit_char n] else str_nat (n div 10) @ [digit_char (n mod 10)])"

subsection \<open>The file system\<close>

text \<open>
  A file system is a list of entries, in the order in which a directory scan returns
  them. An entry's key is its resolved location: the names from the root to it. Symbolic
  links are not modelled. A regular file has a change time and its bytes; a directory
  has a change time.
\<close>

type_synonym path = "string list"

datatype node = File real string | Dir real

fun st_ctime :: "node \<Rightarrow> real" where
  "st_ctime (File t b) = t"
| "st_ctime (Dir t) = t"

type_synonym filesystem = "(path \<times> node) list"

text \<open>Resolution of the components of a path string, as the kernel does it: every
  component is looked up in a directory that must exist.\<close>

fun walk :: "filesystem \<Rightarrow> path \<Rightarrow> string list \<Rightarrow> os_error + path" where
  "walk F cur [] = Inr cur"
| "walk F cur (c # cs) =
     (case map_of F cur of
        None \<Rightarrow> Inl FileNotFoundError
      | Some (File t b) \<Rightarrow> Inl NotADirectoryError
      | Some (Dir t) \<Rightarrow>
          (if c = [] \<or> c = ''.'' then walk F cur cs
           else if c = ''..'' then walk F (butlast cur) cs
           else walk F (cur @ [c]) cs))"

definition os_resolve :: "filesystem \<Rightarrow> path \<Rightarrow> string \<Rightarrow> os_error + path" where
  "os_resolve F wd s =
     (case s of
        [] \<Rightarrow> Inl FileNotFoundError
      | c # _ \<Rightarrow> walk F (if c = CHR ''/'' then [] else wd) (split_on CHR ''/'' s))"

definition os_stat :: "filesystem \<Rightarrow> path \<Rightarrow> string \<Rightarrow> os_error + node" where
  "os_stat F wd s =
     (case os_resolve F wd s of
        Inl e \<Rightarrow> Inl e
      | Inr p \<Rightarrow> (case map_of F p of None \<Rightarrow> Inl FileNotFoundError | Some n \<Rightarrow> Inr n))"

text \<open>\<^verbatim>\<open>os.path.exists\<close> and \<^verbatim>\<open>Path.exists\<close>: a failing \<^verbatim>\<open>stat\<close> is \<^verbatim>\<open>False\<close>.\<close>

definition os_path_exists :: "filesystem \<Rightarrow> path \<Rightarrow> string \<Rightarrow> bool" where
  "os_path_exists F wd s = (case os_stat F wd s of Inl e \<Rightarrow> False | Inr n \<Rightarrow> True)"

definition os_unlink :: "filesystem \<Rightarrow> path \<Rightarrow> string \<Rightarrow> os_error + filesystem" where
  "os_unlink F wd s =
     (case os_resolve F wd s of
        Inl e \<Rightarrow> Inl e
      | Inr p \<Rightarrow>
          (case map_of F p of
             None \<Rightarrow> Inl FileNotFoundError
           | Some (Dir t) \<Rightarrow> Inl IsADirectoryError
           | Some (File t b) \<Rightarrow> Inr (filter (\<lambda>(k, n). k \<noteq> p) F)))"

text \<open>\<^verbatim>\<open>Path.mkdir(exist_ok=True)\<close>: an existing directory is accepted, an existing file
  is \<^verbatim>\<open>FileExistsError\<close>.\<close>

definition path_mkdir :: "filesystem \<Rightarrow> path \<Rightarrow> real \<Rightarrow> string \<Rightarrow> os_error + filesystem" where
  "path_mkdir F wd now s =
     (case os_resolve F wd s of
        Inl e \<Rightarrow> Inl e
      | Inr p \<Rightarrow>
          (case map_of F p of
             None \<Rightarrow> Inr (F @ [(p, Dir now)])
           | Some (Dir t) \<Rightarrow> Inr F
           | Some (File t b) \<Rightarrow> Inl FileExistsError))"

text \<open>\<^verbatim>\<open>with open(path, "wb") as buffer: buffer.write(content)\<close>.\<close>

definition write_file ::
  "filesystem \<Rightarrow> path \<Rightarrow> real \<Rightarrow> string \<Rightarrow> string \<Rightarrow> os_error + filesystem" where
  "write_file F wd now s bytes =
     (case os_resolve F wd s of
        Inl e \<Rightarrow> Inl e
      | Inr p \<Rightarrow>
          (case map_of F p of
             None \<Rightarrow> Inr (F @ [(p, File now bytes)])
           | Some (Dir t) \<Rightarrow> Inl IsADirectoryError
           | Some (File t b) \<Rightarrow>
               Inr (map (\<lambda>(k, n). if k = p then (k, File now bytes) else (k, n)) F)))"

text \<open>The path of the entry \<open>nm\<close> of the directory \<open>d\<close>, as a directory scan gives it.\<close>

definition child_path :: "string \<Rightarrow> string \<Rightarrow> string" where
  "child_path d nm = d @ ''/'' @ nm"

text \<open>\<^verbatim>\<open>Path(d).glob(pattern)\<close> for a pattern of one component: the entries of the
  directory whose name matches, as \<^verbatim>\<open>d/name\<close>; nothing when \<open>d\<close> is no directory. The
  scan is taken before the loop body runs.\<close>

definition glob :: "filesystem \<Rightarrow> path \<Rightarrow> string \<Rightarrow> (string \<Rightarrow> bool) \<Rightarrow> string list" where
  "glob F wd d matches =
     (case os_resolve F wd d of
        Inl e \<Rightarrow> []
      | Inr p \<Rightarrow>
          (case map_of F p of
             Some (Dir t) \<Rightarrow>
               map (\<lambda>(k, n). child_path d (last k))
                 (filter (\<lambda>(k, n). k \<noteq> [] \<and> butlast k = p \<and> matches (last k)) F)
           | Some (File t b) \<Rightarrow> []
           | None \<Rightarrow> []))"

subsection \<open>Requests, responses, the engine and the state\<close>

record tts_request =
  "text" :: string
  audio_prompt_path :: "string option"
  output_path :: "string option"
  verbose :: bool
  max_text_tokens_per_sentence :: int
  do_sample :: bool
  top_p :: real
  top_k :: int
  temperature :: real
  length_penalty :: real
  num_beams :: int
  repetition_penalty :: real
  max_mel_tokens :: int

record fast_tts_request = tts_request +
  sentences_bucket_max_size :: int

record batch_tts_request =
  requests :: "tts_request list"

record upload_file =
  filename :: string
  size :: "int option"
  file_content :: string

text \<open>The truth value of an \<^verbatim>\<open>Optional[str]\<close>: \<^verbatim>\<open>None\<close> and the empty string are false.\<close>

fun truthy :: "string option \<Rightarrow> bool" where
  "truthy None = False"
| "truthy (Some s) = (s \<noteq> [])"

text \<open>\<^verbatim>\<open>not p or not os.path.exists(p)\<close> (lines 247, 299, 419).\<close>

fun reference_missing :: "filesystem \<Rightarrow> path \<Rightarrow> string option \<Rightarrow> bool" where
  "reference_missing F wd None = True"
| "reference_missing F wd (Some p) = (if p = [] then True else \<not> os_path_exists F wd p)"

text \<open>
  The engine is external. \<open>infer eng tts i r F\<close> is what the call \<^verbatim>\<open>tts.infer(...)\<close> does
  when it is the engine call number \<open>i\<close> of the running request, with the arguments
  taken from \<open>r\<close>, on the file system \<open>F\<close>: the exception it raises, if any, and the file
  system it leaves. Nothing is assumed about it.
\<close>

record 'e engine =
  infer :: "'e \<Rightarrow> nat \<Rightarrow> tts_request \<Rightarrow> filesystem \<Rightarrow> exc option \<times> filesystem"
  infer_fast :: "'e \<Rightarrow> nat \<Rightarrow> fast_tts_request \<Rightarrow> filesystem \<Rightarrow> exc option \<times> filesystem"

text \<open>What a request reads from its environment: the clock on entry and on leaving, the
  time stamp the file system gives to what the request creates, the identifier
  \<^verbatim>\<open>uuid.uuid4()\<close> returns for item \<open>i\<close> (0 outside a batch), and the two clock readings
  around the engine call of batch item \<open>i\<close>.\<close>

record env =
  time_start :: real
  time_end :: real
  time_fs :: real
  uuid4 :: "nat \<Rightarrow> string"
  time_item :: "nat \<Rightarrow> real \<times> real"

record 'e state =
  tts_instance :: "'e option"
  stats :: stats
  fs :: filesystem
  cwd :: path

datatype reply =
    TTS_done
  | Fast_TTS_done
  | Upload_done
  | Batch_done
  | Deleted string
  | Cleaned nat

record tts_response =
  tts_success :: bool
  tts_output_path :: "string option"
  tts_inference_time :: real
  tts_text_length :: nat
  tts_message :: reply

record upload_response =
  upload_success :: bool
  file_path :: string
  upload_filename :: string
  file_size :: nat
  upload_message :: reply

text \<open>An entry of the batch results is a dictionary; a key it does not have is \<open>None\<close>.\<close>

record batch_entry =
  index :: nat
  success :: bool
  entry_output_path :: "string option"
  inference_time :: "real option"
  text_length :: "nat option"
  error :: "pytext option"

record batch_response =
  batch_success :: bool
  batch_total_requests :: nat
  results :: "batch_entry list"
  batch_message :: reply

datatype file_response = FileResponse string string string

record delete_response =
  delete_success :: bool
  delete_message :: reply

record cleanup_response =
  cleanup_success :: bool
  cleaned_files :: "string list"
  cleanup_message :: reply

text \<open>\<^verbatim>\<open>round(x, 2)\<close> on the reals: to the nearest hundredth, a tie to the even one.\<close>

definition round_half_even :: "real \<Rightarrow> int" where
  "round_half_even y =
     (let f = \<lfloor>y\<rfloor>; d = y - of_int f
      in if d < 1 / 2 then f else if 1 / 2 < d then f + 1 else if even f then f else f + 1)"

definition round2 :: "real \<Rightarrow> real" where
  "round2 x = of_int (round_half_even (x * 100)) / 100"

subsection \<open>The dependency (api.py, lines 150-154)\<close>

definition get_tts_instance :: "'e state \<Rightarrow> exc + 'e" where
  "get_tts_instance s =
     (case tts_instance s of
        None \<Rightarrow> Inl (HTTPException 503 (Lit TTS_not_initialised))
      | Some tts \<Rightarrow> Inr tts)"

text \<open>\<^verbatim>\<open>tts: IndexTTS = Depends(get_tts_instance)\<close>: the framework calls the dependency
  before the handler; when the dependency raises, the handler is not called and the
  exception is the response.\<close>

definition depends_tts ::
  "'e state \<Rightarrow> ('e \<Rightarrow> 'e state \<Rightarrow> (exc + 'r) \<times> 'e state) \<Rightarrow> (exc + 'r) \<times> 'e state" where
  "depends_tts s handler =
     (case get_tts_instance s of
        Inl e \<Rightarrow> (Inl e, s)
      | Inr tts \<Rightarrow> handler tts s)"

text \<open>The \<^verbatim>\<open>except Exception as e\<close> block of a handler that records statistics
  (lines 279-283, 332-336, 383-387, 473-477): \<^verbatim>\<open>success\<close> is still \<^verbatim>\<open>False\<close> there.\<close>

definition handler_failed ::
  "prefix \<Rightarrow> env \<Rightarrow> exc \<Rightarrow> 'e state \<Rightarrow> (exc + 'r) \<times> 'e state" where
  "handler_failed p ev e s =
     (Inl (HTTPException 500 (Prefixed p e)),
      s\<lparr>stats := update_stats False (time_end ev - time_start ev) (stats s)\<rparr>)"

subsection \<open>Synthesis (api.py, lines 233-283 and 285-336)\<close>

definition new_output_path :: "env \<Rightarrow> string" where
  "new_output_path ev = str_path (truediv (Path ''outputs'') (uuid4 ev 0 @ ''.wav''))"

definition text_to_speech ::
  "'e engine \<Rightarrow> env \<Rightarrow> tts_request \<Rightarrow> 'e \<Rightarrow> 'e state \<Rightarrow> (exc + tts_response) \<times> 'e state" where
  "text_to_speech eng ev request tts s =
     (case (if truthy (output_path request) then Inr (request, fs s)
            else (case path_mkdir (fs s) (cwd s) (time_fs ev) ''outputs'' of
                    Inl e \<Rightarrow> Inl e
                  | Inr F \<Rightarrow> Inr (request\<lparr>output_path := Some (new_output_path ev)\<rparr>, F))) of
        Inl e \<Rightarrow> handler_failed TTS_failed ev (OSError e) s
      | Inr (request1, F) \<Rightarrow>
          if reference_missing F (cwd s) (audio_prompt_path request1)
          then handler_failed TTS_failed ev
                 (HTTPException 400 (Lit Reference_audio_missing)) (s\<lparr>fs := F\<rparr>)
          else (case infer eng tts 0 request1 F of
                  (Some e, F1) \<Rightarrow> handler_failed TTS_failed ev e (s\<lparr>fs := F1\<rparr>)
                | (None, F1) \<Rightarrow>
                    (Inr \<lparr>tts_success = True,
                          tts_output_path = output_path request1,
                          tts_inference_time = round2 (time_end ev - time_start ev),
                          tts_text_length = length (text request1),
                          tts_message = TTS_done\<rparr>,
                     s\<lparr>fs := F1,
                       stats := update_stats True (time_end ev - time_start ev) (stats s)\<rparr>)))"

definition text_to_speech_fast ::
  "'e engine \<Rightarrow> env \<Rightarrow> fast_tts_request \<Rightarrow> 'e \<Rightarrow> 'e state \<Rightarrow>
   (exc + tts_response) \<times> 'e state" where
  "text_to_speech_fast eng ev request tts s =
     (case (if truthy (output_path request) then Inr (request, fs s)
            else (case path_mkdir (fs s) (cwd s) (time_fs ev) ''outputs'' of
                    Inl e \<Rightarrow> Inl e
                  | Inr F \<Rightarrow> Inr (request\<lparr>output_path := Some (new_output_path ev)\<rparr>, F))) of
        Inl e \<Rightarrow> handler_failed Fast_TTS_failed ev (OSError e) s
      | Inr (request1, F) \<Rightarrow>
          if reference_missing F (cwd s) (audio_prompt_path request1)
          then handler_failed Fast_TTS_failed ev
                 (HTTPException 400 (Lit Reference_audio_missing)) (s\<lparr>fs := F\<rparr>)
          else (case infer_fast eng tts 0 request1 F of
                  (Some e, F1) \<Rightarrow> handler_failed Fast_TTS_failed ev e (s\<lparr>fs := F1\<rparr>)
                | (None, F1) \<Rightarrow>
                    (Inr \<lparr>tts_success = True,
                          tts_output_path = output_path request1,
                          tts_inference_time = round2 (time_end ev - time_start ev),
                          tts_text_length = length (text request1),
                          tts_message = Fast_TTS_done\<rparr>,
                     s\<lparr>fs := F1,
                       stats := update_stats True (time_end ev - time_start ev) (stats s)\<rparr>)))"

subsection \<open>Upload, download and deletion (api.py, lines 338-400 and 507-520)\<close>

text \<open>\<^verbatim>\<open>file.size and file.size > config["max_file_size"]\<close> (line 354).\<close>

fun size_exceeds :: "int option \<Rightarrow> int \<Rightarrow> bool" where
  "size_exceeds None limit = False"
| "size_exceeds (Some n) limit = (if n = 0 then False else limit < n)"

definition upload_target :: "env \<Rightarrow> string \<Rightarrow> string" where
  "upload_target ev fname =
     str_path (truediv (Path ''uploads'') (uuid4 ev 0 @ ''_'' @ fname))"

definition upload_audio ::
  "config \<Rightarrow> env \<Rightarrow> upload_file \<Rightarrow> 'e state \<Rightarrow> (exc + upload_response) \<times> 'e state" where
  "upload_audio cfg ev file s =
     (let file_ext = lower (suffix (Path (filename file)))
      in if file_ext \<notin> set (allowed_audio_formats cfg)
         then handler_failed Upload_failed ev (HTTPException 400 (Lit Unsupported_format)) s
         else if size_exceeds (size file) (max_file_size cfg)
         then handler_failed Upload_failed ev (HTTPException 400 (Lit File_too_large)) s
         else (case path_mkdir (fs s) (cwd s) (time_fs ev) ''uploads'' of
                 Inl e \<Rightarrow> handler_failed Upload_failed ev (OSError e) s
               | Inr F \<Rightarrow>
                   (let target = upload_target ev (filename file)
                    in case write_file F (cwd s) (time_fs ev) target (file_content file) of
                         Inl e \<Rightarrow> handler_failed Upload_failed ev (OSError e) (s\<lparr>fs := F\<rparr>)
                       | Inr F1 \<Rightarrow>
                           (Inr \<lparr>upload_success = True,
                                 file_path = target,
                                 upload_filename = filename file,
                                 file_size = length (file_content file),
                                 upload_message = Upload_done\<rparr>,
                            s\<lparr>fs := F1,
                              stats := update_stats True (time_end ev - time_start ev)
                                         (stats s)\<rparr>))))"

definition download_audio :: "string \<Rightarrow> 'e state \<Rightarrow> exc + file_response" where
  "download_audio fname s =
     (let target = str_path (truediv (Path ''outputs'') fname)
      in if os_path_exists (fs s) (cwd s) target
         then Inr (FileResponse target fname ''audio/wav'')
         else Inl (HTTPException 404 (Lit File_not_found)))"

definition delete_audio_file :: "string \<Rightarrow> 'e state \<Rightarrow> (exc + delete_response) \<times> 'e state" where
  "delete_audio_file fname s =
     (let target = str_path (truediv (Path ''outputs'') fname)
      in if os_path_exists (fs s) (cwd s) target
         then (case os_unlink (fs s) (cwd s) target of
                 Inl e \<Rightarrow> (Inl (HTTPException 500 (Prefixed Delete_failed (OSError e))), s)
               | Inr F \<Rightarrow>
                   (Inr \<lparr>delete_success = True, delete_message = Deleted fname\<rparr>,
                    s\<lparr>fs := F\<rparr>))
         else (Inl (HTTPException 500
                      (Prefixed Delete_failed (HTTPException 404 (Lit File_not_found)))), s))"

subsection \<open>Batch synthesis (api.py, lines 402-477)\<close>

definition batch_output_path :: "env \<Rightarrow> nat \<Rightarrow> string" where
  "batch_output_path ev i =
     str_path (truediv (Path ''outputs'')
       (''batch_'' @ uuid4 ev i @ ''_'' @ str_nat i @ ''.wav''))"

definition missing_entry :: "nat \<Rightarrow> batch_entry" where
  "missing_entry i =
     \<lparr>index = i, success = False, entry_output_path = None, inference_time = None,
      text_length = None, error = Some (Lit Reference_audio_missing)\<rparr>"

definition raised_entry :: "nat \<Rightarrow> exc \<Rightarrow> batch_entry" where
  "raised_entry i e =
     \<lparr>index = i, success = False, entry_output_path = None, inference_time = None,
      text_length = None, error = Some (Str e)\<rparr>"

definition done_entry :: "env \<Rightarrow> nat \<Rightarrow> tts_request \<Rightarrow> batch_entry" where
  "done_entry ev i r =
     \<lparr>index = i, success = True, entry_output_path = output_path r,
      inference_time = Some (round2 (snd (time_item ev i) - fst (time_item ev i))),
      text_length = Some (length (text r)), error = None\<rparr>"

text \<open>Lines 415-416: an item without an output path gets a generated one.\<close>

definition with_output_path :: "env \<Rightarrow> nat \<Rightarrow> tts_request \<Rightarrow> tts_request" where
  "with_output_path ev i r =
     (if truthy (output_path r) then r
      else r\<lparr>output_path := Some (batch_output_path ev i)\<rparr>)"

text \<open>The body of the loop \<^verbatim>\<open>for i, tts_request in enumerate(request.requests)\<close> for
  item \<open>i\<close>: the entry it appends to \<^verbatim>\<open>results\<close> (one on each of its three paths) and
  the file system it leaves.\<close>

definition batch_step ::
  "'e engine \<Rightarrow> env \<Rightarrow> path \<Rightarrow> 'e \<Rightarrow> nat \<Rightarrow> tts_request \<Rightarrow> filesystem \<Rightarrow>
   batch_entry \<times> filesystem" where
  "batch_step eng ev wd tts i r F =
     (let r1 = with_output_path ev i r
      in if reference_missing F wd (audio_prompt_path r1)
         then (missing_entry i, F)
         else (case infer eng tts i r1 F of
                 (Some e, F1) \<Rightarrow> (raised_entry i e, F1)
               | (None, F1) \<Rightarrow> (done_entry ev i r1, F1)))"

text \<open>The loop from item \<open>i\<close> on, with the list \<^verbatim>\<open>results\<close> built so far.\<close>

fun batch_loop ::
  "'e engine \<Rightarrow> env \<Rightarrow> path \<Rightarrow> 'e \<Rightarrow> nat \<Rightarrow> tts_request list \<Rightarrow> filesystem \<Rightarrow>
   batch_entry list \<Rightarrow> batch_entry list \<times> filesystem" where
  "batch_loop eng ev wd tts i [] F res = (res, F)"
| "batch_loop eng ev wd tts i (r # rs) F res =
     (case batch_step eng ev wd tts i r F of
        (entry, F1) \<Rightarrow> batch_loop eng ev wd tts (Suc i) rs F1 (res @ [entry]))"

definition batch_text_to_speech ::
  "'e engine \<Rightarrow> env \<Rightarrow> batch_tts_request \<Rightarrow> 'e \<Rightarrow> 'e state \<Rightarrow>
   (exc + batch_response) \<times> 'e state" where
  "batch_text_to_speech eng ev request tts s =
     (case path_mkdir (fs s) (cwd s) (time_fs ev) ''outputs'' of
        Inl e \<Rightarrow> handler_failed Batch_failed ev (OSError e) s
      | Inr F \<Rightarrow>
          (case batch_loop eng ev (cwd s) tts 0 (requests request) F [] of
             (res, F1) \<Rightarrow>
               (Inr \<lparr>batch_success = True,
                     batch_total_requests = length (requests request),
                     results = res,
                     batch_message = Batch_done\<rparr>,
                s\<lparr>fs := F1,
                  stats := update_stats True (time_end ev - time_start ev) (stats s)\<rparr>)))"

subsection \<open>The routes of the synthesis operations\<close>

definition post_tts ::
  "'e engine \<Rightarrow> env \<Rightarrow> tts_request \<Rightarrow> 'e state \<Rightarrow> (exc + tts_response) \<times> 'e state" where
  "post_tts eng ev request s = depends_tts s (text_to_speech eng ev request)"

definition post_tts_fast ::
  "'e engine \<Rightarrow> env \<Rightarrow> fast_tts_request \<Rightarrow> 'e state \<Rightarrow> (exc + tts_response) \<times> 'e state" where
  "post_tts_fast eng ev request s = depends_tts s (text_to_speech_fast eng ev request)"

definition post_batch_tts ::
  "'e engine \<Rightarrow> env \<Rightarrow> batch_tts_request \<Rightarrow> 'e state \<Rightarrow>
   (exc + batch_response) \<times> 'e state" where
  "post_batch_tts eng ev request s = depends_tts s (batch_text_to_speech eng ev request)"

subsection \<open>Cleanup (api.py, lines 522-556)\<close>

text \<open>One of the two loops over a directory scan, with the list \<^verbatim>\<open>cleaned_files\<close> built
  so far. An exception leaves the loop with the file system as it is by then.\<close>

fun cleanup_loop ::
  "path \<Rightarrow> real \<Rightarrow> string list \<Rightarrow> filesystem \<Rightarrow> string list \<Rightarrow>
   exc option \<times> filesystem \<times> string list" where
  "cleanup_loop wd cutoff [] F cleaned = (None, F, cleaned)"
| "cleanup_loop wd cutoff (p # ps) F cleaned =
     (case os_stat F wd p of
        Inl e \<Rightarrow> (Some (OSError e), F, cleaned)
      | Inr n \<Rightarrow>
          if st_ctime n < cutoff
          then (case os_unlink F wd p of
                  Inl e \<Rightarrow> (Some (OSError e), F, cleaned)
                | Inr F1 \<Rightarrow> cleanup_loop wd cutoff ps F1 (cleaned @ [p]))
          else cleanup_loop wd cutoff ps F cleaned)"

definition cleanup_dir ::
  "path \<Rightarrow> real \<Rightarrow> string \<Rightarrow> (string \<Rightarrow> bool) \<Rightarrow> filesystem \<Rightarrow> string list \<Rightarrow>
   exc option \<times> filesystem \<times> string list" where
  "cleanup_dir wd cutoff d matches F cleaned =
     (if os_path_exists F wd d
      then cleanup_loop wd cutoff (glob F wd d matches) F cleaned
      else (None, F, cleaned))"

definition cleanup_failed :: "exc \<Rightarrow> 'e state \<Rightarrow> (exc + cleanup_response) \<times> 'e state" where
  "cleanup_failed e s = (Inl (HTTPException 500 (Prefixed Cleanup_failed e)), s)"

text \<open>\<^verbatim>\<open>cutoff_time = time.time() - config["max_file_age"]\<close> (line 529).\<close>

definition cutoff_time :: "config \<Rightarrow> env \<Rightarrow> real" where
  "cutoff_time cfg ev = time_start ev - real_of_int (max_file_age cfg)"

definition cleanup_old_files ::
  "config \<Rightarrow> env \<Rightarrow> 'e state \<Rightarrow> (exc + cleanup_response) \<times> 'e state" where
  "cleanup_old_files cfg ev s =
     (if auto_cleanup cfg
      then (case cleanup_dir (cwd s) (cutoff_time cfg ev) ''outputs'' (ends_with ''.wav'')
                   (fs s) [] of
              (Some e, F1, c1) \<Rightarrow> cleanup_failed e (s\<lparr>fs := F1\<rparr>)
            | (None, F1, c1) \<Rightarrow>
                (case cleanup_dir (cwd s) (cutoff_time cfg ev) ''uploads'' (\<lambda>nm. True) F1 c1 of
                   (Some e, F2, c2) \<Rightarrow> cleanup_failed e (s\<lparr>fs := F2\<rparr>)
                 | (None, F2, c2) \<Rightarrow>
                     (Inr \<lparr>cleanup_success = True,
                           cleaned_files = c2,
                           cleanup_message = Cleaned (length c2)\<rparr>,
                      s\<lparr>fs := F2\<rparr>)))
      else cleanup_failed (HTTPException 400 (Lit Cleanup_not_enabled)) s)"

subsection \<open>Notions used in the properties\<close>

text \<open>What an entry of the batch results carries: a successful one its output path,
  its elapsed time and its text length and no error text; a failed one an error text
  and none of the three.\<close>

definition entry_shape :: "batch_entry \<Rightarrow> bool" where
  "entry_shape e =
     (if success e
      then entry_output_path e \<noteq> None \<and> inference_time e \<noteq> None \<and>
           text_length e \<noteq> None \<and> error e = None
      else error e \<noteq> None \<and> entry_output_path e = None \<and>
           inference_time e = None \<and> text_length e = None)"

text \<open>A regular file; a location that holds a directory; a name that a directory
  entry can have.\<close>

fun is_file :: "node \<Rightarrow> bool" where
  "is_file (File t b) = True"
| "is_file (Dir t) = False"

definition is_dir :: "filesystem \<Rightarrow> path \<Rightarrow> bool" where
  "is_dir F p = (case map_of F p of None \<Rightarrow> False | Some n \<Rightarrow> \<not> is_file n)"

definition valid_name :: "string \<Rightarrow> bool" where
  "valid_name nm = (nm \<noteq> [] \<and> nm \<noteq> ''.'' \<and> nm \<noteq> ''..'' \<and> CHR ''/'' \<notin> set nm)"

text \<open>A well-formed file system: no location occurs twice, and every entry but the
  root has a valid name and lies in a directory.\<close>

definition fs_wf :: "filesystem \<Rightarrow> bool" where
  "fs_wf F =
     (distinct (map fst F) \<and>
      list_all (\<lambda>(k, n). k = [] \<or> (valid_name (last k) \<and> is_dir F (butlast k))) F)"

text \<open>The entries the two loops of \<^verbatim>\<open>cleanup_old_files\<close> look at: the \<^verbatim>\<open>*.wav\<close> entries
  of the outputs directory and all entries of the uploads directory.\<close>

definition in_dir :: "path \<Rightarrow> string \<Rightarrow> (string \<Rightarrow> bool) \<Rightarrow> path \<Rightarrow> bool" where
  "in_dir wd d matches k = (k \<noteq> [] \<and> butlast k = wd @ [d] \<and> matches (last k))"

definition cleanup_target :: "path \<Rightarrow> path \<Rightarrow> bool" where
  "cleanup_target wd k =
     (in_dir wd ''outputs'' (ends_with ''.wav'') k \<or> in_dir wd ''uploads'' (\<lambda>nm. True) k)"

text \<open>The paths of the entries of the directory \<open>d\<close> that match and are older than the
  cutoff, in the order of the scan.\<close>

definition old_paths ::
  "path \<Rightarrow> real \<Rightarrow> string \<Rightarrow> (string \<Rightarrow> bool) \<Rightarrow> filesystem \<Rightarrow> string list" where
  "old_paths wd cutoff d matches F =
     map (\<lambda>(k, n). child_path d (last k))
       (filter (\<lambda>(k, n). in_dir wd d matches k \<and> st_ctime n < cutoff) F)"

text \<open>The resolved location \<open>p\<close> lies in the directory \<open>d\<close> or below it.\<close>

definition inside :: "path \<Rightarrow> path \<Rightarrow> bool" where
  "inside d p = (take (length d) p = d)"

subsection \<open>Concrete inputs\<close>

text \<open>A working directory that is the root, with the two artifact directories, one
  generated file, one uploaded file and one file outside both directories; an engine
  that always succeeds and writes nothing; and a request with the default parameters.\<close>

definition example_fs :: filesystem where
  "example_fs =
     [([], Dir 0),
      ([''outputs''], Dir 0),
      ([''uploads''], Dir 0),
      ([''secret.txt''], File 5 ''key''),
      ([''outputs'', ''a.wav''], File 10 ''RIFF''),
      ([''uploads'', ''ref.wav''], File 20 ''RIFF'')]"

definition cleanup_example_fs :: filesystem where
  "cleanup_example_fs =
     [([], Dir 0),
      ([''outputs''], Dir 0),
      ([''uploads''], Dir 0),
      ([''outputs'', ''old.wav''], File 5 ''RIFF''),
      ([''outputs'', ''edge.wav''], File 10 ''RIFF''),
      ([''outputs'', ''old.txt''], File 5 ''log''),
      ([''outputs'', ''new.wav''], File 50 ''RIFF''),
      ([''uploads'', ''old.bin''], File 5 ''raw''),
      ([''uploads'', ''new.wav''], File 50 ''RIFF'')]"

definition cleanup_example_state :: "unit state" where
  "cleanup_example_state =
     \<lparr>tts_instance = None, stats = init_stats 0, fs = cleanup_example_fs, cwd = []\<rparr>"

definition example_stats :: stats where
  "example_stats =
     \<lparr>total_requests = 7, successful_requests = 4, failed_requests = 3,
      response_times = [2, 3], start_time = 0\<rparr>"

definition example_state :: "unit option \<Rightarrow> unit state" where
  "example_state inst =
     \<lparr>tts_instance = inst, stats = example_stats, fs = example_fs, cwd = []\<rparr>"

definition example_engine :: "unit engine" where
  "example_engine =
     \<lparr>infer = (\<lambda>tts i r F. (None, F)), infer_fast = (\<lambda>tts i r F. (None, F))\<rparr>"

definition example_env :: env where
  "example_env =
     \<lparr>time_start = 100, time_end = 103, time_fs = 101,
      uuid4 = (\<lambda>i. ''1b4e28ba''), time_item = (\<lambda>i. (101, 102))\<rparr>"

definition example_request :: "string option \<Rightarrow> tts_request" where
  "example_request ref =
     \<lparr>text = ''hello'', audio_prompt_path = ref, output_path = None, verbose = False,
      max_text_tokens_per_sentence = 120, do_sample = True, top_p = 0.8, top_k = 30,
      temperature = 1, length_penalty = 0, num_beams = 3, repetition_penalty = 10,
      max_mel_tokens = 600\<rparr>"

definition example_fast_request :: "string option \<Rightarrow> fast_tts_request" where
  "example_fast_request ref =
     \<lparr>text = ''hello'', audio_prompt_path = ref, output_path = None, verbose = False,
      max_text_tokens_per_sentence = 120, do_sample = True, top_p = 0.8, top_k = 30,
      temperature = 1, length_penalty = 0, num_beams = 3, repetition_penalty = 10,
      max_mel_tokens = 600, sentences_bucket_max_size = 4\<rparr>"

definition example_batch :: batch_tts_request where
  "example_batch =
     \<lparr>requests = [example_request (Some ''uploads/ref.wav''), example_request None]\<rparr>"

section \<open>Properties\<close>

subsection \<open>The response-time window\<close>

lemma response_times_update_stats:
  "response_times (update_stats ok t st) = last_n 1000 (response_times st @ [t])"
  by (simp add: update_stats_def Let_def last_n_def)

lemma last_n_append_last_n:
  "last_n n (last_n n xs @ ys) = last_n n (xs @ ys)"
proof (cases "length xs \<le> n")
  case True
  then show ?thesis by (simp add: last_n_def)
next
  case False
  then have "length xs + length ys - n = (length xs - n) + length ys" by simp
  with False show ?thesis by (simp add: last_n_def add.commute)
qed

lemma response_times_record_all:
  "response_times (record_all rs st) = last_n 1000 (response_times st @ map snd rs)"
    if "length (response_times st) \<le> 1000"
  using that
proof (induction rs arbitrary: st)
  case Nil
  then show ?case by (simp add: last_n_def)
next
  case (Cons r rs)
  obtain ok t where r: "r = (ok, t)" by (cases r)
  have len: "length (response_times (update_stats ok t st)) \<le> 1000"
    by (simp add: response_times_update_stats last_n_def)
  have "response_times (record_all (r # rs) st)
        = last_n 1000 (last_n 1000 (response_times st @ [t]) @ map snd rs)"
    using Cons.IH [OF len] by (simp add: r response_times_update_stats)
  also have "\<dots> = last_n 1000 ((response_times st @ [t]) @ map snd rs)"
    by (rule last_n_append_last_n)
  finally show ?case by (simp add: r)
qed

text \<open>
  Claim C8. Starting from the empty window of the module's initial \<^verbatim>\<open>stats\<close>, after any
  sequence of recordings the window holds at most 1000 samples (so it does at every
  point of the sequence, each point being the end of a prefix); it always is the last
  1000 recorded samples in their order; and after exactly 1001 recordings it has
  length 1000 and is the sequence without its first sample.
\<close>

theorem response_time_window_bounded:
  "length (response_times (record_all rs (init_stats now))) \<le> 1000 \<and>
   response_times (record_all rs (init_stats now)) = last_n 1000 (map snd rs) \<and>
   (length rs = 1001 \<longrightarrow>
      length (response_times (record_all rs (init_stats now))) = 1000 \<and>
      response_times (record_all rs (init_stats now)) = tl (map snd rs))"
proof -
  have w: "response_times (record_all rs (init_stats now)) = last_n 1000 (map snd rs)"
    using response_times_record_all [of "init_stats now" rs] by (simp add: init_stats_def)
  have "length (last_n 1000 (map snd rs)) \<le> 1000"
    by (simp add: last_n_def)
  moreover have "last_n 1000 (map snd rs) = tl (map snd rs)" if "length rs = 1001"
    using that by (simp add: last_n_def drop_Suc)
  ultimately show ?thesis
    using w by auto
qed

theorem response_time_window_bounded_witness:
  "length (map (\<lambda>i. (True, real i)) [0..<1001]) = 1001 \<and>
   length (response_times
     (record_all (map (\<lambda>i. (True, real i)) [0..<1001]) (init_stats 0))) = 1000 \<and>
   response_times (record_all (map (\<lambda>i. (True, real i)) [0..<1001]) (init_stats 0))
     = map real [1..<1001]"
proof -
  let ?rs = "map (\<lambda>i. (True, real i)) [0..<1001]"
  have l: "length ?rs = 1001" by simp
  have u: "[0..<1001] = 0 # [Suc 0..<1001]" by (rule upt_conv_Cons) simp
  have "map snd ?rs = map real [0..<1001]"
    by (simp only: map_map comp_def snd_conv)
  also have "\<dots> = real 0 # map real [Suc 0..<1001]"
    by (subst u) (simp only: list.map)
  finally have t: "tl (map snd ?rs) = map real [1..<1001]"
    by (simp only: list.sel One_nat_def)
  from response_time_window_bounded [of ?rs 0] l
  have a: "length (response_times (record_all ?rs (init_stats 0))) = 1000"
    and b: "response_times (record_all ?rs (init_stats 0)) = tl (map snd ?rs)"
    by blast+
  from b t have c: "response_times (record_all ?rs (init_stats 0)) = map real [1..<1001]"
    by (rule trans)
  show ?thesis by (rule conjI [OF l conjI [OF a c]])
qed

subsection \<open>Evaluation of the model\<close>

lemmas fs_defs =
  os_path_exists_def os_stat_def os_resolve_def os_unlink_def path_mkdir_def write_file_def

lemmas path_defs =
  str_path_def truediv_def Path_def name_def suffix_def lower_def lower_char_def

lemma handler_failed_simps [simp]:
  "stats (snd (handler_failed p ev e s)) =
     update_stats False (time_end ev - time_start ev) (stats s)"
  "isl (fst (handler_failed p ev e s))"
  "fs (snd (handler_failed p ev e s)) = fs s"
  by (simp_all add: handler_failed_def)

lemma total_requests_update_stats [simp]:
  "total_requests (update_stats ok t st) = total_requests st + 1"
  by (simp add: update_stats_def Let_def)

lemma failed_requests_update_stats [simp]:
  "failed_requests (update_stats ok t st) = failed_requests st + (if ok then 0 else 1)"
  by (simp add: update_stats_def Let_def)

lemma depends_tts_ready:
  "tts_instance s = Some tts \<Longrightarrow> depends_tts s handler = handler tts s"
  by (simp add: depends_tts_def get_tts_instance_def)

subsection \<open>Requests while the engine is not initialised\<close>

text \<open>
  Claim C2, as amended. While \<^verbatim>\<open>tts_instance\<close> is \<^verbatim>\<open>None\<close>, each of the three synthesis
  routes answers with the 503 of the dependency \<^verbatim>\<open>get_tts_instance\<close>, and the state is
  left as it was: the handler body, which alone calls \<^verbatim>\<open>update_stats\<close>, is not entered,
  so no request and no failure is recorded.
\<close>

theorem not_ready_is_503_and_unrecorded:
  "tts_instance s = None \<Longrightarrow>
     post_tts eng ev r s = (Inl (HTTPException 503 (Lit TTS_not_initialised)), s) \<and>
     post_tts_fast eng ev rf s = (Inl (HTTPException 503 (Lit TTS_not_initialised)), s) \<and>
     post_batch_tts eng ev rb s = (Inl (HTTPException 503 (Lit TTS_not_initialised)), s)"
  by (simp add: post_tts_def post_tts_fast_def post_batch_tts_def depends_tts_def
      get_tts_instance_def)

theorem not_ready_is_503_and_unrecorded_witness:
  "tts_instance (example_state None) = None \<and>
   post_tts example_engine example_env (example_request (Some ''uploads/ref.wav''))
     (example_state None)
   = (Inl (HTTPException 503 (Lit TTS_not_initialised)), example_state None) \<and>
   post_batch_tts example_engine example_env example_batch (example_state None)
   = (Inl (HTTPException 503 (Lit TTS_not_initialised)), example_state None)"
  using not_ready_is_503_and_unrecorded
    [of "example_state None" example_engine example_env
        "example_request (Some ''uploads/ref.wav'')" _ example_batch]
  by (simp add: example_state_def)

text \<open>The claim as stated fails: on the example state without an engine, a synthesis
  request leaves \<^verbatim>\<open>failed_requests\<close> at 3 and \<^verbatim>\<open>total_requests\<close> at 7.\<close>

theorem not_ready_records_no_failure:
  "tts_instance (example_state None) = None \<and>
   failed_requests (stats (snd (post_tts example_engine example_env
      (example_request (Some ''uploads/ref.wav'')) (example_state None)))) = 3 \<and>
   failed_requests (stats (example_state None)) + 1 = 4 \<and>
   total_requests (stats (snd (post_tts example_engine example_env
      (example_request (Some ''uploads/ref.wav'')) (example_state None)))) = 7 \<and>
   total_requests (stats (example_state None)) + 1 = 8"
  by (simp add: post_tts_def depends_tts_def get_tts_instance_def example_state_def
      example_stats_def)

subsection \<open>What the statistics record\<close>

lemma stats_text_to_speech:
  "stats (snd (text_to_speech eng ev r tts s)) =
     update_stats (\<not> isl (fst (text_to_speech eng ev r tts s)))
       (time_end ev - time_start ev) (stats s)"
  by (simp add: text_to_speech_def split: sum.split prod.split option.split)

lemma stats_text_to_speech_fast:
  "stats (snd (text_to_speech_fast eng ev rf tts s)) =
     update_stats (\<not> isl (fst (text_to_speech_fast eng ev rf tts s)))
       (time_end ev - time_start ev) (stats s)"
  by (simp add: text_to_speech_fast_def split: sum.split prod.split option.split)

lemma stats_upload_audio:
  "stats (snd (upload_audio cfg ev file s)) =
     update_stats (\<not> isl (fst (upload_audio cfg ev file s)))
       (time_end ev - time_start ev) (stats s)"
  by (simp add: upload_audio_def Let_def split: sum.split prod.split option.split)

lemma stats_batch_text_to_speech:
  "stats (snd (batch_text_to_speech eng ev rb tts s)) =
     update_stats (\<not> isl (fst (batch_text_to_speech eng ev rb tts s)))
       (time_end ev - time_start ev) (stats s)"
  by (simp add: batch_text_to_speech_def split: sum.split prod.split option.split)

text \<open>
  Claim C5, as amended. A synthesis, fast-synthesis or batch request that reaches its
  handler (the engine is initialised), and every upload request, calls \<^verbatim>\<open>update_stats\<close>
  exactly once, with the request's success flag and the elapsed time
  \<^verbatim>\<open>end_time - start_time\<close>. A batch is one such request whatever the number of its
  items: \<^verbatim>\<open>total_requests\<close> grows by exactly 1, and the items are reported in the
  response only.
\<close>

theorem request_recorded_once:
  "tts_instance s = Some tts \<Longrightarrow>
     stats (snd (post_tts eng ev r s)) =
       update_stats (\<not> isl (fst (post_tts eng ev r s)))
         (time_end ev - time_start ev) (stats s) \<and>
     stats (snd (post_tts_fast eng ev rf s)) =
       update_stats (\<not> isl (fst (post_tts_fast eng ev rf s)))
         (time_end ev - time_start ev) (stats s) \<and>
     stats (snd (post_batch_tts eng ev rb s)) =
       update_stats (\<not> isl (fst (post_batch_tts eng ev rb s)))
         (time_end ev - time_start ev) (stats s) \<and>
     total_requests (stats (snd (post_batch_tts eng ev rb s))) = total_requests (stats s) + 1 \<and>
     stats (snd (upload_audio cfg ev file s)) =
       update_stats (\<not> isl (fst (upload_audio cfg ev file s)))
         (time_end ev - time_start ev) (stats s)"
  by (simp add: post_tts_def post_tts_fast_def post_batch_tts_def depends_tts_ready
      stats_text_to_speech stats_text_to_speech_fast stats_batch_text_to_speech
      stats_upload_audio)

theorem request_recorded_once_witness:
  "tts_instance (example_state (Some ())) = Some () \<and>
   length (requests example_batch) = 2 \<and>
   stats (snd (post_batch_tts example_engine example_env example_batch
     (example_state (Some ())))) =
     update_stats
       (\<not> isl (fst (post_batch_tts example_engine example_env example_batch
          (example_state (Some ())))))
       3 example_stats"
  using request_recorded_once
    [of "example_state (Some ())" "()" example_engine example_env _ _ example_batch]
  by (simp add: example_state_def example_env_def example_batch_def)

text \<open>The claim as stated fails: a batch of two items on the example state with an
  engine, where 7 requests were recorded before, leaves 8 recorded requests and one new
  sample in the window, not 10 and three.\<close>

theorem batch_items_not_recorded:
  "length (requests example_batch) = 2 \<and>
   total_requests (stats (example_state (Some ()))) = 7 \<and>
   total_requests (stats (snd (post_batch_tts example_engine example_env example_batch
     (example_state (Some ()))))) = 8 \<and>
   response_times (stats (snd (post_batch_tts example_engine example_env example_batch
     (example_state (Some ()))))) = response_times (stats (example_state (Some ()))) @ [3]"
  by (simp add: post_batch_tts_def depends_tts_def get_tts_instance_def
      batch_text_to_speech_def example_state_def example_stats_def example_env_def
      example_batch_def example_fs_def fs_defs update_stats_def Let_def last_n_def
      split: prod.split)

subsection \<open>Rejected uploads\<close>

lemma upload_bad_extension:
  "lower (suffix (Path (filename file))) \<notin> set (allowed_audio_formats cfg) \<Longrightarrow>
   upload_audio cfg ev file s =
     (Inl (HTTPException 500
            (Prefixed Upload_failed (HTTPException 400 (Lit Unsupported_format)))),
      s\<lparr>stats := update_stats False (time_end ev - time_start ev) (stats s)\<rparr>)"
  by (simp add: upload_audio_def handler_failed_def)

text \<open>
  Claim C6. The upload of \<^verbatim>\<open>notes.txt\<close> under the default configuration writes nothing:
  the file system is the one before, and only the statistics change. The 400 that the
  handler raises for the extension (line 348) is caught by the handler's own
  \<^verbatim>\<open>except Exception\<close> (line 383), so the response is the 500 of line 387 that wraps it.
\<close>

theorem upload_bad_extension_is_500:
  "upload_audio default_config example_env
     \<lparr>filename = ''notes.txt'', size = Some 3, file_content = ''abc''\<rparr> (example_state None)
   = (Inl (HTTPException 500
            (Prefixed Upload_failed (HTTPException 400 (Lit Unsupported_format)))),
      (example_state None)\<lparr>stats := update_stats False 3 example_stats\<rparr>)"
  by (simp add: upload_audio_def default_config_def get_config_def ALLOWED_AUDIO_FORMATS_def
      path_defs handler_failed_def example_env_def example_state_def)

subsection \<open>Deletion\<close>

lemma delete_missing:
  "\<not> os_path_exists (fs s) (cwd s) (str_path (truediv (Path ''outputs'') fname)) \<Longrightarrow>
   delete_audio_file fname s =
     (Inl (HTTPException 500
            (Prefixed Delete_failed (HTTPException 404 (Lit File_not_found)))), s)"
  by (simp add: delete_audio_file_def)

text \<open>
  Claim C7. Deleting \<^verbatim>\<open>gone.wav\<close>, which the outputs directory does not hold, leaves the
  state as it is and answers 500: the 404 raised at line 513 is caught by the
  \<^verbatim>\<open>except Exception\<close> of line 518 and wrapped at line 520. Deleting the existing
  \<^verbatim>\<open>a.wav\<close> succeeds, and deleting it a second time answers the same 500.
\<close>

theorem delete_missing_is_500:
  "delete_audio_file ''gone.wav'' (example_state None)
     = (Inl (HTTPException 500
              (Prefixed Delete_failed (HTTPException 404 (Lit File_not_found)))),
        example_state None) \<and>
   fst (delete_audio_file ''a.wav'' (example_state None))
     = Inr \<lparr>delete_success = True, delete_message = Deleted ''a.wav''\<rparr> \<and>
   fst (delete_audio_file ''a.wav'' (snd (delete_audio_file ''a.wav'' (example_state None))))
     = Inl (HTTPException 500
              (Prefixed Delete_failed (HTTPException 404 (Lit File_not_found))))"
  by (simp add: delete_audio_file_def example_state_def example_fs_def path_defs fs_defs)

subsection \<open>Download and deletion are not confined to the outputs directory\<close>

text \<open>
  Claim C9. Whatever regular file the path \<^verbatim>\<open>outputs/<filename>\<close> resolves to,
  \<^verbatim>\<open>download_audio\<close> answers with a file response for that path and \<^verbatim>\<open>delete_audio_file\<close>
  removes the file; nothing asks that the resolved location lie in the outputs
  directory. And there is a file name with a \<^verbatim>\<open>..\<close> segment, a state and a regular file
  outside the outputs directory for which this happens.
\<close>

theorem download_delete_unconfined:
  "(os_resolve (fs s) (cwd s) (str_path (truediv (Path ''outputs'') fname)) = Inr p \<longrightarrow>
    map_of (fs s) p = Some (File t b) \<longrightarrow>
      download_audio fname s =
        Inr (FileResponse (str_path (truediv (Path ''outputs'') fname)) fname ''audio/wav'') \<and>
      delete_audio_file fname s =
        (Inr \<lparr>delete_success = True, delete_message = Deleted fname\<rparr>,
         s\<lparr>fs := filter (\<lambda>(k, n). k \<noteq> p) (fs s)\<rparr>)) \<and>
   (\<exists>(s0 :: unit state) fname0 p0 t0 b0.
      ''..'' \<in> set (split_on CHR ''/'' fname0) \<and>
      os_resolve (fs s0) (cwd s0) (str_path (truediv (Path ''outputs'') fname0)) = Inr p0 \<and>
      map_of (fs s0) p0 = Some (File t0 b0) \<and>
      \<not> inside (cwd s0 @ [''outputs'']) p0 \<and>
      download_audio fname0 s0 =
        Inr (FileResponse (str_path (truediv (Path ''outputs'') fname0)) fname0
               ''audio/wav'') \<and>
      map_of (fs (snd (delete_audio_file fname0 s0))) p0 = None)"
proof (intro conjI impI)
  assume "os_resolve (fs s) (cwd s) (str_path (truediv (Path ''outputs'') fname)) = Inr p"
    and "map_of (fs s) p = Some (File t b)"
  then show
    "download_audio fname s =
       Inr (FileResponse (str_path (truediv (Path ''outputs'') fname)) fname ''audio/wav'')"
    "delete_audio_file fname s =
       (Inr \<lparr>delete_success = True, delete_message = Deleted fname\<rparr>,
        s\<lparr>fs := filter (\<lambda>(k, n). k \<noteq> p) (fs s)\<rparr>)"
    by (simp_all add: download_audio_def delete_audio_file_def os_path_exists_def os_stat_def
        os_unlink_def)
next
  have "''..'' \<in> set (split_on CHR ''/'' ''../secret.txt'') \<and>
      os_resolve (fs (example_state None)) (cwd (example_state None))
        (str_path (truediv (Path ''outputs'') ''../secret.txt'')) = Inr [''secret.txt''] \<and>
      map_of (fs (example_state None)) [''secret.txt''] = Some (File 5 ''key'') \<and>
      \<not> inside (cwd (example_state None) @ [''outputs'']) [''secret.txt''] \<and>
      download_audio ''../secret.txt'' (example_state None) =
        Inr (FileResponse (str_path (truediv (Path ''outputs'') ''../secret.txt''))
               ''../secret.txt'' ''audio/wav'') \<and>
      map_of (fs (snd (delete_audio_file ''../secret.txt'' (example_state None))))
        [''secret.txt''] = None"
    by (simp add: download_audio_def delete_audio_file_def example_state_def example_fs_def
        path_defs fs_defs inside_def)
  then show "\<exists>(s0 :: unit state) fname0 p0 t0 b0.
      ''..'' \<in> set (split_on CHR ''/'' fname0) \<and>
      os_resolve (fs s0) (cwd s0) (str_path (truediv (Path ''outputs'') fname0)) = Inr p0 \<and>
      map_of (fs s0) p0 = Some (File t0 b0) \<and>
      \<not> inside (cwd s0 @ [''outputs'']) p0 \<and>
      download_audio fname0 s0 =
        Inr (FileResponse (str_path (truediv (Path ''outputs'') fname0)) fname0
               ''audio/wav'') \<and>
      map_of (fs (snd (delete_audio_file fname0 s0))) p0 = None"
    by blast
qed

theorem download_delete_unconfined_witness:
  "os_resolve (fs (example_state None)) (cwd (example_state None))
     (str_path (truediv (Path ''outputs'') ''../secret.txt'')) = Inr [''secret.txt''] \<and>
   map_of (fs (example_state None)) [''secret.txt''] = Some (File 5 ''key'') \<and>
   \<not> inside (cwd (example_state None) @ [''outputs'']) [''secret.txt''] \<and>
   download_audio ''../secret.txt'' (example_state None) =
     Inr (FileResponse ''outputs/../secret.txt'' ''../secret.txt'' ''audio/wav'') \<and>
   delete_audio_file ''../secret.txt'' (example_state None) =
     (Inr \<lparr>delete_success = True, delete_message = Deleted ''../secret.txt''\<rparr>,
      (example_state None)
        \<lparr>fs := [([], Dir 0), ([''outputs''], Dir 0), ([''uploads''], Dir 0),
                ([''outputs'', ''a.wav''], File 10 ''RIFF''),
                ([''uploads'', ''ref.wav''], File 20 ''RIFF'')]\<rparr>)"
proof -
  have r: "os_resolve (fs (example_state None)) (cwd (example_state None))
     (str_path (truediv (Path ''outputs'') ''../secret.txt'')) = Inr [''secret.txt'']"
    by (simp add: example_state_def example_fs_def path_defs fs_defs)
  have m: "map_of (fs (example_state None)) [''secret.txt''] = Some (File 5 ''key'')"
    by (simp add: example_state_def example_fs_def)
  have o: "\<not> inside (cwd (example_state None) @ [''outputs'']) [''secret.txt'']"
    by (simp add: example_state_def inside_def)
  have p: "str_path (truediv (Path ''outputs'') ''../secret.txt'') = ''outputs/../secret.txt''"
    by (simp add: path_defs)
  have f: "filter (\<lambda>(k, n). k \<noteq> [''secret.txt'']) (fs (example_state None)) =
      [([], Dir 0), ([''outputs''], Dir 0), ([''uploads''], Dir 0),
       ([''outputs'', ''a.wav''], File 10 ''RIFF''),
       ([''uploads'', ''ref.wav''], File 20 ''RIFF'')]"
    by (simp add: example_state_def example_fs_def)
  from download_delete_unconfined
    [of "example_state None" "''../secret.txt''" "[''secret.txt'']" 5 "''key''"] r m
  have "download_audio ''../secret.txt'' (example_state None) =
          Inr (FileResponse (str_path (truediv (Path ''outputs'') ''../secret.txt''))
                 ''../secret.txt'' ''audio/wav'') \<and>
        delete_audio_file ''../secret.txt'' (example_state None) =
          (Inr \<lparr>delete_success = True, delete_message = Deleted ''../secret.txt''\<rparr>,
           (example_state None)
             \<lparr>fs := filter (\<lambda>(k, n). k \<noteq> [''secret.txt'']) (fs (example_state None))\<rparr>)"
    by blast
  with r m o show ?thesis
    by (simp only: p f simp_thms)
qed

subsection \<open>The results of a batch\<close>

lemma batch_loop_acc:
  "batch_loop eng ev wd tts i rs F res =
     (res @ fst (batch_loop eng ev wd tts i rs F []), snd (batch_loop eng ev wd tts i rs F []))"
proof (induction rs arbitrary: i F res)
  case Nil
  show ?case by simp
next
  case (Cons r rs)
  obtain e F1 where st: "batch_step eng ev wd tts i r F = (e, F1)"
    by (cases "batch_step eng ev wd tts i r F")
  have a: "batch_loop eng ev wd tts i (r # rs) F res
           = batch_loop eng ev wd tts (Suc i) rs F1 (res @ [e])"
    by (simp add: st)
  have b: "batch_loop eng ev wd tts i (r # rs) F []
           = batch_loop eng ev wd tts (Suc i) rs F1 [e]"
    by (simp add: st)
  have c: "batch_loop eng ev wd tts (Suc i) rs F1 (res @ [e])
           = ((res @ [e]) @ fst (batch_loop eng ev wd tts (Suc i) rs F1 []),
              snd (batch_loop eng ev wd tts (Suc i) rs F1 []))"
    by (rule Cons.IH)
  have d: "batch_loop eng ev wd tts (Suc i) rs F1 [e]
           = ([e] @ fst (batch_loop eng ev wd tts (Suc i) rs F1 []),
              snd (batch_loop eng ev wd tts (Suc i) rs F1 []))"
    by (rule Cons.IH)
  show ?case
    by (simp only: a b c d fst_conv snd_conv append_assoc)
qed

lemma batch_loop_Cons:
  "batch_loop eng ev wd tts i (r # rs) F [] =
     (fst (batch_step eng ev wd tts i r F)
        # fst (batch_loop eng ev wd tts (Suc i) rs (snd (batch_step eng ev wd tts i r F)) []),
      snd (batch_loop eng ev wd tts (Suc i) rs (snd (batch_step eng ev wd tts i r F)) []))"
proof -
  obtain e F1 where st: "batch_step eng ev wd tts i r F = (e, F1)"
    by (cases "batch_step eng ev wd tts i r F")
  have "batch_loop eng ev wd tts i (r # rs) F []
        = batch_loop eng ev wd tts (Suc i) rs F1 [e]"
    by (simp add: st)
  also have "\<dots> = ([e] @ fst (batch_loop eng ev wd tts (Suc i) rs F1 []),
                    snd (batch_loop eng ev wd tts (Suc i) rs F1 []))"
    by (rule batch_loop_acc)
  finally show ?thesis by (simp add: st)
qed

lemma index_batch_step: "index (fst (batch_step eng ev wd tts i r F)) = i"
  by (simp add: batch_step_def Let_def missing_entry_def raised_entry_def done_entry_def
      split: prod.split option.split)

lemma shape_batch_step: "entry_shape (fst (batch_step eng ev wd tts i r F))"
  by (cases "output_path r")
     (simp_all add: batch_step_def with_output_path_def Let_def missing_entry_def
       raised_entry_def done_entry_def entry_shape_def split: prod.split option.split)

lemma length_batch_loop:
  "length (fst (batch_loop eng ev wd tts i rs F [])) = length rs"
  by (induction rs arbitrary: i F) (simp_all add: batch_loop_Cons del: batch_loop.simps(2))

lemma index_batch_loop:
  "map index (fst (batch_loop eng ev wd tts i rs F [])) = [i..<i + length rs]"
proof (induction rs arbitrary: i F)
  case Nil
  show ?case by simp
next
  case (Cons r rs)
  have "[i..<i + length (r # rs)] = i # [Suc i..<i + length (r # rs)]"
    by (rule upt_conv_Cons) simp
  moreover have "i + length (r # rs) = Suc i + length rs"
    by simp
  ultimately have "[i..<i + length (r # rs)] = i # [Suc i..<Suc i + length rs]"
    by (simp only:)
  then show ?case
    by (simp add: batch_loop_Cons index_batch_step Cons.IH del: batch_loop.simps(2) upt_Suc)
qed

lemma shape_batch_loop:
  "e \<in> set (fst (batch_loop eng ev wd tts i rs F [])) \<Longrightarrow> entry_shape e"
  by (induction rs arbitrary: i F)
     (auto simp add: batch_loop_Cons shape_batch_step simp del: batch_loop.simps(2))

lemma nth_batch_loop:
  "k < length rs \<Longrightarrow>
   fst (batch_loop eng ev wd tts i rs F []) ! k =
     fst (batch_step eng ev wd tts (i + k) (rs ! k)
            (snd (batch_loop eng ev wd tts i (take k rs) F [])))"
proof (induction rs arbitrary: i F k)
  case Nil
  then show ?case by simp
next
  case (Cons r rs)
  show ?case
  proof (cases k)
    case 0
    then show ?thesis by (simp add: batch_loop_Cons del: batch_loop.simps(2))
  next
    case (Suc j)
    with Cons.prems have "j < length rs" by simp
    from Cons.IH [OF this, of "Suc i" "snd (batch_step eng ev wd tts i r F)"]
    show ?thesis by (simp add: Suc batch_loop_Cons del: batch_loop.simps(2))
  qed
qed

text \<open>
  Claim C3, as amended. When the engine is initialised and the outputs directory can be
  made, a batch of \<open>N\<close> requests returns a results list of exactly \<open>N\<close> entries whose
  index fields are \<open>0, \<dots>, N - 1\<close> in input order. Entry \<open>k\<close> is what the loop body makes
  of request \<open>k\<close> on the file system the earlier items left. A successful entry carries
  its output path, its elapsed time and its text length; a failed entry carries an
  error text and no elapsed time. An item whose reference audio is missing gives the
  failure entry of line 420, an item whose engine call raises gives the failure entry
  of line 456, and the loop goes on in both cases.
\<close>

theorem batch_results_cover_input:
  assumes "tts_instance s = Some tts"
    and "path_mkdir (fs s) (cwd s) (time_fs ev) ''outputs'' = Inr F"
  shows "\<exists>resp s1. post_batch_tts eng ev rb s = (Inr resp, s1) \<and>
      batch_total_requests resp = length (requests rb) \<and>
      length (results resp) = length (requests rb) \<and>
      map index (results resp) = [0..<length (requests rb)] \<and>
      (\<forall>e \<in> set (results resp). entry_shape e) \<and>
      (\<forall>k < length (requests rb).
         results resp ! k =
           fst (batch_step eng ev (cwd s) tts k (requests rb ! k)
                  (snd (batch_loop eng ev (cwd s) tts 0 (take k (requests rb)) F [])))) \<and>
      (\<forall>i r G. reference_missing G (cwd s) (audio_prompt_path r) \<longrightarrow>
         batch_step eng ev (cwd s) tts i r G = (missing_entry i, G)) \<and>
      (\<forall>i r G e G1. \<not> reference_missing G (cwd s) (audio_prompt_path r) \<longrightarrow>
         infer eng tts i (with_output_path ev i r) G = (Some e, G1) \<longrightarrow>
         batch_step eng ev (cwd s) tts i r G = (raised_entry i e, G1)) \<and>
      (\<forall>i r G G1. \<not> reference_missing G (cwd s) (audio_prompt_path r) \<longrightarrow>
         infer eng tts i (with_output_path ev i r) G = (None, G1) \<longrightarrow>
         batch_step eng ev (cwd s) tts i r G = (done_entry ev i (with_output_path ev i r), G1))"
proof -
  obtain res F1 where l: "batch_loop eng ev (cwd s) tts 0 (requests rb) F [] = (res, F1)"
    by (cases "batch_loop eng ev (cwd s) tts 0 (requests rb) F []")
  have res: "res = fst (batch_loop eng ev (cwd s) tts 0 (requests rb) F [])"
    by (simp add: l)
  have 1: "length res = length (requests rb)"
    unfolding res by (rule length_batch_loop)
  have 2: "map index res = [0..<length (requests rb)]"
    unfolding res using index_batch_loop [of eng ev "cwd s" tts 0 "requests rb" F] by simp
  have 3: "\<forall>e \<in> set res. entry_shape e"
    by (auto simp: res dest: shape_batch_loop)
  have 4: "\<forall>k < length (requests rb).
         res ! k =
           fst (batch_step eng ev (cwd s) tts k (requests rb ! k)
                  (snd (batch_loop eng ev (cwd s) tts 0 (take k (requests rb)) F [])))"
    unfolding res using nth_batch_loop [of _ "requests rb" eng ev "cwd s" tts 0 F] by simp
  have ap: "audio_prompt_path (with_output_path ev i r) = audio_prompt_path r" for i r
    by (simp add: with_output_path_def)
  have 5: "\<forall>i r G. reference_missing G (cwd s) (audio_prompt_path r) \<longrightarrow>
         batch_step eng ev (cwd s) tts i r G = (missing_entry i, G)"
    by (simp add: batch_step_def Let_def ap)
  have 6: "\<forall>i r G e G1. \<not> reference_missing G (cwd s) (audio_prompt_path r) \<longrightarrow>
         infer eng tts i (with_output_path ev i r) G = (Some e, G1) \<longrightarrow>
         batch_step eng ev (cwd s) tts i r G = (raised_entry i e, G1)"
    by (simp add: batch_step_def Let_def ap)
  have 7: "\<forall>i r G G1. \<not> reference_missing G (cwd s) (audio_prompt_path r) \<longrightarrow>
         infer eng tts i (with_output_path ev i r) G = (None, G1) \<longrightarrow>
         batch_step eng ev (cwd s) tts i r G = (done_entry ev i (with_output_path ev i r), G1)"
    by (simp add: batch_step_def Let_def ap)
  have "post_batch_tts eng ev rb s =
          (Inr \<lparr>batch_success = True, batch_total_requests = length (requests rb),
                results = res, batch_message = Batch_done\<rparr>,
           s\<lparr>fs := F1, stats := update_stats True (time_end ev - time_start ev) (stats s)\<rparr>)"
    using assms l
    by (simp add: post_batch_tts_def depends_tts_def get_tts_instance_def
        batch_text_to_speech_def)
  with 1 2 3 4 5 6 7 show ?thesis by simp
qed

theorem batch_results_cover_input_witness:
  "tts_instance (example_state (Some ())) = Some () \<and>
   path_mkdir (fs (example_state (Some ()))) (cwd (example_state (Some ())))
     (time_fs example_env) ''outputs'' = Inr example_fs \<and>
   (\<exists>resp s1.
      post_batch_tts example_engine example_env example_batch (example_state (Some ()))
        = (Inr resp, s1) \<and>
      length (results resp) = 2 \<and>
      map index (results resp) = [0, 1] \<and>
      results resp ! 1 = missing_entry 1)"
proof -
  have a: "tts_instance (example_state (Some ())) = Some ()"
    by (simp add: example_state_def)
  have b: "path_mkdir (fs (example_state (Some ()))) (cwd (example_state (Some ())))
     (time_fs example_env) ''outputs'' = Inr example_fs"
    by (simp add: example_state_def example_fs_def fs_defs)
  have n: "length (requests example_batch) = 2"
    and r1: "audio_prompt_path (requests example_batch ! 1) = None"
    by (simp_all add: example_batch_def example_request_def)
  have u: "[0..<2] = [0, 1]"
    by (simp add: upt_conv_Cons)
  from batch_results_cover_input [OF a b, of example_engine example_batch]
  obtain resp s1 where
    p: "post_batch_tts example_engine example_env example_batch (example_state (Some ()))
          = (Inr resp, s1)"
    and l: "length (results resp) = length (requests example_batch)"
    and i: "map index (results resp) = [0..<length (requests example_batch)]"
    and k: "\<forall>k < length (requests example_batch).
         results resp ! k =
           fst (batch_step example_engine example_env (cwd (example_state (Some ()))) () k
                  (requests example_batch ! k)
                  (snd (batch_loop example_engine example_env (cwd (example_state (Some ())))
                          () 0 (take k (requests example_batch)) example_fs [])))"
    and m: "\<forall>i r G. reference_missing G (cwd (example_state (Some ()))) (audio_prompt_path r) \<longrightarrow>
         batch_step example_engine example_env (cwd (example_state (Some ()))) () i r G
           = (missing_entry i, G)"
    by blast
  from k n have "results resp ! 1 =
           fst (batch_step example_engine example_env (cwd (example_state (Some ()))) () 1
                  (requests example_batch ! 1)
                  (snd (batch_loop example_engine example_env (cwd (example_state (Some ())))
                          () 0 (take 1 (requests example_batch)) example_fs [])))"
    by simp
  with m r1 have "results resp ! 1 = missing_entry 1"
    by simp
  with p l i n u a b show ?thesis
    by auto
qed

text \<open>The claim as stated fails: the entry of an item without reference audio has an
  index, a success flag and an error text, and no elapsed time.\<close>

theorem batch_failure_entry_has_no_time:
  "fst (post_batch_tts example_engine example_env \<lparr>requests = [example_request None]\<rparr>
     (example_state (Some ()))) =
   Inr \<lparr>batch_success = True, batch_total_requests = 1,
        results = [\<lparr>index = 0, success = False, entry_output_path = None,
                    inference_time = None, text_length = None,
                    error = Some (Lit Reference_audio_missing)\<rparr>],
        batch_message = Batch_done\<rparr>"
  by (simp add: post_batch_tts_def depends_tts_def get_tts_instance_def
      batch_text_to_speech_def batch_step_def with_output_path_def missing_entry_def
      example_state_def example_fs_def example_request_def example_env_def fs_defs)

subsection \<open>The size check of an upload\<close>

lemma walk_mono:
  assumes "\<forall>q t. map_of F q = Some (Dir t) \<longrightarrow> map_of G q = Some (Dir t)"
    and "walk F cur cs = Inr p"
  shows "walk G cur cs = Inr p"
  using assms(2)
proof (induction cs arbitrary: cur)
  case Nil
  then show ?case by simp
next
  case (Cons c cs)
  from Cons.prems obtain t where d: "map_of F cur = Some (Dir t)"
    by (auto split: option.splits node.splits)
  with assms(1) have "map_of G cur = Some (Dir t)"
    by simp
  with Cons.prems Cons.IH d show ?case
    by (auto split: if_splits)
qed

lemma os_resolve_mono:
  assumes "\<forall>q t. map_of F q = Some (Dir t) \<longrightarrow> map_of G q = Some (Dir t)"
    and "os_resolve F wd s = Inr p"
  shows "os_resolve G wd s = Inr p"
proof (cases s)
  case Nil
  with assms(2) show ?thesis by (simp add: os_resolve_def)
next
  case (Cons c cs)
  with assms(2)
  have "walk F (if c = CHR ''/'' then [] else wd) (split_on CHR ''/'' s) = Inr p"
    by (simp add: os_resolve_def del: split_on.simps)
  with assms(1)
  have "walk G (if c = CHR ''/'' then [] else wd) (split_on CHR ''/'' s) = Inr p"
    by (rule walk_mono)
  with Cons show ?thesis
    by (simp add: os_resolve_def del: split_on.simps)
qed

lemma map_of_replace:
  "map_of (map (\<lambda>(k, n). if k = p then (k, v) else (k, n)) F) q =
     (if q = p then map_option (\<lambda>n. v) (map_of F p) else map_of F q)"
  by (induction F) auto

lemma write_file_read_back:
  assumes "write_file F wd now s bytes = Inr G"
  shows "os_stat G wd s = Inr (File now bytes)"
proof -
  from assms obtain p where r: "os_resolve F wd s = Inr p"
    by (auto simp: write_file_def split: sum.splits)
  show ?thesis
  proof (cases "map_of F p")
    case None
    with assms r have G: "G = F @ [(p, File now bytes)]"
      by (simp add: write_file_def)
    have "os_resolve G wd s = Inr p"
      by (rule os_resolve_mono [OF _ r]) (simp add: G map_add_def)
    moreover have "map_of G p = Some (File now bytes)"
      using None by (simp add: G map_add_def)
    ultimately show ?thesis by (simp add: os_stat_def)
  next
    case (Some n)
    with assms r obtain t b where n: "n = File t b"
      by (cases n) (auto simp: write_file_def)
    with assms r Some
    have G: "G = map (\<lambda>(k, n). if k = p then (k, File now bytes) else (k, n)) F"
      by (simp add: write_file_def)
    have "os_resolve G wd s = Inr p"
    proof (rule os_resolve_mono [OF _ r], intro allI impI)
      fix q t assume "map_of F q = Some (Dir t)"
      with Some n show "map_of G q = Some (Dir t)"
        by (auto simp: G map_of_replace)
    qed
    moreover have "map_of G p = Some (File now bytes)"
      using Some by (simp add: G map_of_replace)
    ultimately show ?thesis by (simp add: os_stat_def)
  qed
qed

text \<open>
  Claim C10. For an upload whose extension is allowed: when the declared size is absent
  or 0 the size test is false and the result does not depend on the configured ceiling;
  whenever the test on the declared size is false, whatever content is sent is written
  in full (reading the target back gives a regular file with exactly that content) and
  the reported \<^verbatim>\<open>file_size\<close> is the length of that content; and whenever the test on the
  declared size is true the upload is refused, whatever the content is. The test reads
  the declared size and the ceiling only.
\<close>

theorem upload_size_check_uses_declared_size:
  assumes "lower (suffix (Path (filename file))) \<in> set (allowed_audio_formats cfg)"
  shows
    "(size file = None \<or> size file = Some 0 \<longrightarrow>
        \<not> size_exceeds (size file) (max_file_size cfg) \<and>
        upload_audio cfg ev file s = upload_audio (cfg\<lparr>max_file_size := m\<rparr>) ev file s) \<and>
     (\<not> size_exceeds (size file) (max_file_size cfg) \<longrightarrow>
        path_mkdir (fs s) (cwd s) (time_fs ev) ''uploads'' = Inr F \<longrightarrow>
        write_file F (cwd s) (time_fs ev) (upload_target ev (filename file)) c = Inr F1 \<longrightarrow>
          upload_audio cfg ev (file\<lparr>file_content := c\<rparr>) s =
            (Inr \<lparr>upload_success = True,
                  file_path = upload_target ev (filename file),
                  upload_filename = filename file,
                  file_size = length c,
                  upload_message = Upload_done\<rparr>,
             s\<lparr>fs := F1,
               stats := update_stats True (time_end ev - time_start ev) (stats s)\<rparr>) \<and>
          os_stat F1 (cwd s) (upload_target ev (filename file)) = Inr (File (time_fs ev) c)) \<and>
     (size_exceeds (size file) (max_file_size cfg) \<longrightarrow>
        upload_audio cfg ev (file\<lparr>file_content := c\<rparr>) s =
          (Inl (HTTPException 500
                 (Prefixed Upload_failed (HTTPException 400 (Lit File_too_large)))),
           s\<lparr>stats := update_stats False (time_end ev - time_start ev) (stats s)\<rparr>))"
proof (intro conjI impI)
  assume z: "size file = None \<or> size file = Some 0"
  then show n: "\<not> size_exceeds (size file) (max_file_size cfg)"
    by auto
  from z have "\<not> size_exceeds (size file) m"
    by auto
  with n assms show "upload_audio cfg ev file s = upload_audio (cfg\<lparr>max_file_size := m\<rparr>) ev file s"
    by (simp add: upload_audio_def)
next
  assume "\<not> size_exceeds (size file) (max_file_size cfg)"
    and "path_mkdir (fs s) (cwd s) (time_fs ev) ''uploads'' = Inr F"
    and w: "write_file F (cwd s) (time_fs ev) (upload_target ev (filename file)) c = Inr F1"
  with assms show "upload_audio cfg ev (file\<lparr>file_content := c\<rparr>) s =
            (Inr \<lparr>upload_success = True,
                  file_path = upload_target ev (filename file),
                  upload_filename = filename file,
                  file_size = length c,
                  upload_message = Upload_done\<rparr>,
             s\<lparr>fs := F1,
               stats := update_stats True (time_end ev - time_start ev) (stats s)\<rparr>)"
    by (simp add: upload_audio_def upload_target_def)
  from w show "os_stat F1 (cwd s) (upload_target ev (filename file)) = Inr (File (time_fs ev) c)"
    by (rule write_file_read_back)
next
  assume "size_exceeds (size file) (max_file_size cfg)"
  with assms show "upload_audio cfg ev (file\<lparr>file_content := c\<rparr>) s =
          (Inl (HTTPException 500
                 (Prefixed Upload_failed (HTTPException 400 (Lit File_too_large)))),
           s\<lparr>stats := update_stats False (time_end ev - time_start ev) (stats s)\<rparr>)"
    by (simp add: upload_audio_def handler_failed_def)
qed


theorem upload_size_check_uses_declared_size_witness:
  "lower (suffix (Path ''voice.wav'')) \<in> set (allowed_audio_formats (get_config 0 False 86400)) \<and>
   max_file_size (get_config 0 False 86400) = 0 \<and>
   upload_audio (get_config 0 False 86400) example_env
     \<lparr>filename = ''voice.wav'', size = None, file_content = ''RIFFdata''\<rparr> (example_state None)
   = (Inr \<lparr>upload_success = True,
           file_path = ''uploads/1b4e28ba_voice.wav'',
           upload_filename = ''voice.wav'',
           file_size = 8,
           upload_message = Upload_done\<rparr>,
      (example_state None)
        \<lparr>fs := example_fs @ [([''uploads'', ''1b4e28ba_voice.wav''], File 101 ''RIFFdata'')],
         stats := update_stats True 3 example_stats\<rparr>) \<and>
   upload_audio (get_config 0 False 86400) example_env
     \<lparr>filename = ''voice.wav'', size = Some 5, file_content = []\<rparr> (example_state None)
   = (Inl (HTTPException 500
            (Prefixed Upload_failed (HTTPException 400 (Lit File_too_large)))),
      (example_state None)\<lparr>stats := update_stats False 3 example_stats\<rparr>)"
proof -
  let ?cfg = "get_config 0 False 86400"
  let ?file = "\<lparr>filename = ''voice.wav'', size = None, file_content = ''RIFFdata''\<rparr>"
  let ?big = "\<lparr>filename = ''voice.wav'', size = Some 5, file_content = ''RIFFdata''\<rparr>"
  let ?F1 = "example_fs @ [([''uploads'', ''1b4e28ba_voice.wav''], File 101 ''RIFFdata'')]"
  have a: "lower (suffix (Path (filename ?file))) \<in> set (allowed_audio_formats ?cfg)"
    by (simp add: get_config_def ALLOWED_AUDIO_FORMATS_def path_defs)
  have a': "lower (suffix (Path (filename ?big))) \<in> set (allowed_audio_formats ?cfg)"
    by (simp add: get_config_def ALLOWED_AUDIO_FORMATS_def path_defs)
  have a'': "lower (suffix (Path ''voice.wav'')) \<in> set (allowed_audio_formats ?cfg)"
    using a by simp
  have m: "max_file_size ?cfg = 0"
    by (simp add: get_config_def)
  have n: "\<not> size_exceeds (size ?file) (max_file_size ?cfg)"
    by simp
  have x: "size_exceeds (size ?big) (max_file_size ?cfg)"
    by (simp add: get_config_def)
  have t: "upload_target example_env ''voice.wav'' = ''uploads/1b4e28ba_voice.wav''"
    by (simp add: upload_target_def example_env_def path_defs)
  have d: "path_mkdir (fs (example_state None)) (cwd (example_state None)) (time_fs example_env)
             ''uploads'' = Inr example_fs"
    by (simp add: example_state_def example_fs_def fs_defs)
  have w: "write_file example_fs (cwd (example_state None)) (time_fs example_env)
             (upload_target example_env (filename ?file)) ''RIFFdata'' = Inr ?F1"
    by (simp add: upload_target_def example_state_def example_env_def example_fs_def fs_defs
        path_defs)
  have e: "time_end example_env - time_start example_env = 3"
    "stats (example_state None) = example_stats"
    by (simp_all add: example_env_def example_state_def)
  from upload_size_check_uses_declared_size
    [OF a, of example_env "example_state None" _ example_fs "''RIFFdata''" ?F1] n d w
  have 1: "upload_audio ?cfg example_env (?file\<lparr>file_content := ''RIFFdata''\<rparr>)
             (example_state None) =
            (Inr \<lparr>upload_success = True,
                  file_path = upload_target example_env (filename ?file),
                  upload_filename = filename ?file,
                  file_size = length ''RIFFdata'',
                  upload_message = Upload_done\<rparr>,
             (example_state None)\<lparr>fs := ?F1,
               stats := update_stats True (time_end example_env - time_start example_env)
                          (stats (example_state None))\<rparr>)"
    by blast
  from upload_size_check_uses_declared_size
    [OF a', of example_env "example_state None" _ _ "[]"] x
  have 2: "upload_audio ?cfg example_env (?big\<lparr>file_content := []\<rparr>) (example_state None) =
          (Inl (HTTPException 500
                 (Prefixed Upload_failed (HTTPException 400 (Lit File_too_large)))),
           (example_state None)\<lparr>stats := update_stats False
              (time_end example_env - time_start example_env) (stats (example_state None))\<rparr>)"
    by blast
  have r1: "upload_audio ?cfg example_env ?file (example_state None) =
            (Inr \<lparr>upload_success = True,
                  file_path = ''uploads/1b4e28ba_voice.wav'',
                  upload_filename = ''voice.wav'',
                  file_size = 8,
                  upload_message = Upload_done\<rparr>,
             (example_state None)\<lparr>fs := ?F1, stats := update_stats True 3 example_stats\<rparr>)"
    using 1 by (simp add: t e)
  have r2: "upload_audio ?cfg example_env
              \<lparr>filename = ''voice.wav'', size = Some 5, file_content = []\<rparr> (example_state None) =
          (Inl (HTTPException 500
                 (Prefixed Upload_failed (HTTPException 400 (Lit File_too_large)))),
           (example_state None)\<lparr>stats := update_stats False 3 example_stats\<rparr>)"
    using 2 by (simp add: e)
  show ?thesis
    by (rule conjI [OF a'' conjI [OF m conjI [OF r1 r2]]])
qed

subsection \<open>Cleanup of old files\<close>

lemma split_on_no_sep: "c \<notin> set xs \<Longrightarrow> split_on c xs = [xs]"
  by (induction xs) auto

lemma split_on_append: "c \<notin> set a \<Longrightarrow> split_on c (a @ c # b) = a # split_on c b"
  by (induction a) auto

lemma is_dir_Some: "is_dir F p \<Longrightarrow> \<exists>t. map_of F p = Some (Dir t)"
  by (auto simp: is_dir_def split: option.splits elim: is_file.elims)

lemma os_resolve_child:
  assumes "is_dir G wd" "is_dir G (wd @ [d])" "valid_name d" "valid_name nm"
  shows "os_resolve G wd (child_path d nm) = Inr (wd @ [d, nm])"
proof -
  from assms(1) obtain t1 where 1: "map_of G wd = Some (Dir t1)"
    by (auto dest: is_dir_Some)
  from assms(2) obtain t2 where 2: "map_of G (wd @ [d]) = Some (Dir t2)"
    by (auto dest: is_dir_Some)
  from assms(3) obtain c cs where d: "d = c # cs" and c: "c \<noteq> CHR ''/''"
    by (cases d) (auto simp: valid_name_def)
  have "split_on CHR ''/'' (child_path d nm) = [d, nm]"
    using assms(3,4)
    by (simp add: child_path_def split_on_append split_on_no_sep valid_name_def
        del: split_on.simps)
  moreover have "walk G wd [d, nm] = Inr (wd @ [d, nm])"
    using 1 2 assms(3,4) by (simp add: valid_name_def)
  moreover have "child_path d nm = c # (cs @ ''/'' @ nm)"
    by (simp add: child_path_def d)
  ultimately show ?thesis
    using c by (simp add: os_resolve_def del: split_on.simps)
qed

lemma os_resolve_dir:
  assumes "is_dir G wd" "valid_name d"
  shows "os_resolve G wd d = Inr (wd @ [d])"
proof -
  from assms(1) obtain t1 where 1: "map_of G wd = Some (Dir t1)"
    by (auto dest: is_dir_Some)
  from assms(2) obtain c cs where d: "d = c # cs" and c: "c \<noteq> CHR ''/''"
    by (cases d) (auto simp: valid_name_def)
  have "split_on CHR ''/'' d = [d]"
    using assms(2) by (simp add: split_on_no_sep valid_name_def)
  moreover have "walk G wd [d] = Inr (wd @ [d])"
    using 1 assms(2) by (simp add: valid_name_def)
  ultimately show ?thesis
    using c d by (simp add: os_resolve_def del: split_on.simps)
qed

lemma map_of_filter_key:
  "map_of (filter (\<lambda>y. fst y \<noteq> p) G) q = (if q = p then None else map_of G q)"
  by (induction G) auto

lemma cleanup_loop_spec:
  assumes "distinct (map fst G)"
    and "is_dir G wd" and "is_dir G (wd @ [d])" and "valid_name d"
    and "set E \<subseteq> set G" and "distinct (map fst E)"
    and "\<forall>y \<in> set E. fst y \<noteq> [] \<and> butlast (fst y) = wd @ [d] \<and> valid_name (last (fst y)) \<and>
           (st_ctime (snd y) < cutoff \<longrightarrow> is_file (snd y))"
  shows "cleanup_loop wd cutoff (map (\<lambda>y. child_path d (last (fst y))) E) G cleaned =
     (None,
      filter (\<lambda>y. \<not> (y \<in> set E \<and> st_ctime (snd y) < cutoff)) G,
      cleaned @ map (\<lambda>y. child_path d (last (fst y)))
                  (filter (\<lambda>y. st_ctime (snd y) < cutoff) E))"
  using assms
proof (induction E arbitrary: G cleaned)
  case Nil
  then show ?case by simp
next
  case (Cons x E)
  let ?f = "\<lambda>y :: path \<times> node. child_path d (last (fst y))"
  let ?old = "\<lambda>y :: path \<times> node. st_ctime (snd y) < cutoff"
  obtain k n where x: "x = (k, n)" by (cases x)
  from Cons.prems x have kn: "(k, n) \<in> set G" and k: "k \<noteq> []" "butlast k = wd @ [d]"
    "valid_name (last k)" and old: "st_ctime n < cutoff \<longrightarrow> is_file n"
    by auto
  from k have kk: "wd @ [d, last k] = k"
    by (metis append.assoc append_Cons append_Nil append_butlast_last_id)
  have res: "os_resolve G wd (child_path d (last k)) = Inr k"
    using os_resolve_child [OF Cons.prems(2,3,4) k(3)] kk by simp
  have m: "map_of G k = Some n"
    using Cons.prems(1) kn by simp
  have st: "os_stat G wd (child_path d (last k)) = Inr n"
    by (simp add: os_stat_def res m)
  have E: "\<forall>y \<in> set E. fst y \<noteq> k"
    using Cons.prems(6) x by (auto simp: rev_image_eqI)
  show ?case
  proof (cases "st_ctime n < cutoff")
    case False
    have step: "cleanup_loop wd cutoff (map ?f (x # E)) G cleaned
                = cleanup_loop wd cutoff (map ?f E) G cleaned"
      using False by (simp add: x st)
    have ih: "cleanup_loop wd cutoff (map ?f E) G cleaned =
       (None, filter (\<lambda>y. \<not> (y \<in> set E \<and> ?old y)) G, cleaned @ map ?f (filter ?old E))"
      using Cons.prems by (intro Cons.IH) auto
    have e1: "filter (\<lambda>y. \<not> (y \<in> set (x # E) \<and> ?old y)) G
              = filter (\<lambda>y. \<not> (y \<in> set E \<and> ?old y)) G"
      using False by (intro filter_cong) (auto simp: x)
    have e2: "filter ?old (x # E) = filter ?old E"
      using False by (simp add: x)
    show ?thesis
      by (simp only: step ih e1 e2)
  next
    case True
    with old obtain t b where n: "n = File t b"
      by (cases n) auto
    let ?G = "filter (\<lambda>y. fst y \<noteq> k) G"
    have G': "filter (\<lambda>(k', n'). k' \<noteq> k) G = ?G"
      by (simp add: case_prod_unfold)
    have un: "os_unlink G wd (child_path d (last k)) = Inr ?G"
      by (simp add: os_unlink_def res m n G')
    have nk: "k \<noteq> wd" "k \<noteq> wd @ [d]"
      using Cons.prems(2,3) m n by (auto simp: is_dir_def)
    have 1: "distinct (map fst ?G)"
      using Cons.prems(1) by (simp add: distinct_map_filter)
    have 2: "is_dir ?G wd" "is_dir ?G (wd @ [d])"
      using Cons.prems(2,3) nk by (simp_all add: is_dir_def map_of_filter_key)
    have 3: "set E \<subseteq> set ?G"
      using Cons.prems(5) E by auto
    have step: "cleanup_loop wd cutoff (map ?f (x # E)) G cleaned
                = cleanup_loop wd cutoff (map ?f E) ?G (cleaned @ [?f x])"
      using True by (simp add: x st un)
    have ih: "cleanup_loop wd cutoff (map ?f E) ?G (cleaned @ [?f x]) =
       (None, filter (\<lambda>y. \<not> (y \<in> set E \<and> ?old y)) ?G,
        (cleaned @ [?f x]) @ map ?f (filter ?old E))"
      using 1 2 3 Cons.prems(4,6,7) by (intro Cons.IH) auto
    have e1: "filter (\<lambda>y. \<not> (y \<in> set E \<and> ?old y)) ?G
              = filter (\<lambda>y. \<not> (y \<in> set (x # E) \<and> ?old y)) G"
    proof -
      have "filter (\<lambda>y. \<not> (y \<in> set E \<and> ?old y)) ?G
            = filter (\<lambda>y. fst y \<noteq> k \<and> \<not> (y \<in> set E \<and> ?old y)) G"
        by (simp add: conj_commute)
      also have "\<dots> = filter (\<lambda>y. \<not> (y \<in> set (x # E) \<and> ?old y)) G"
      proof (intro filter_cong refl)
        fix y assume y: "y \<in> set G"
        obtain k' n' where y': "y = (k', n')" by (cases y)
        have "k' = k \<Longrightarrow> n' = n"
          using Cons.prems(1) kn y y' by (metis eq_key_imp_eq_value)
        then show "(fst y \<noteq> k \<and> \<not> (y \<in> set E \<and> ?old y)) = (\<not> (y \<in> set (x # E) \<and> ?old y))"
          using True E by (auto simp: y' x)
      qed
      finally show ?thesis .
    qed
    have e2: "(cleaned @ [?f x]) @ map ?f (filter ?old E) = cleaned @ map ?f (filter ?old (x # E))"
      using True by (simp add: x)
    show ?thesis
      by (simp only: step ih e1 e2)
  qed
qed

lemma is_dir_filter:
  assumes "distinct (map fst G)" and "is_dir G p" and "\<forall>y \<in> set G. fst y = p \<longrightarrow> Q y"
  shows "is_dir (filter Q G) p"
proof -
  from assms(2) obtain t where "map_of G p = Some (Dir t)"
    by (auto dest: is_dir_Some)
  then have "(p, Dir t) \<in> set G"
    by (rule map_of_SomeD)
  with assms(3) have "(p, Dir t) \<in> set (filter Q G)"
    by auto
  moreover have "distinct (map fst (filter Q G))"
    using assms(1) by (simp add: distinct_map_filter)
  ultimately have "map_of (filter Q G) p = Some (Dir t)"
    by simp
  then show ?thesis by (simp add: is_dir_def)
qed

lemma cleanup_dir_spec:
  assumes "distinct (map fst G)" and "is_dir G wd" and "valid_name d"
    and A3: "\<forall>y \<in> set G. fst y \<noteq> [] \<and> butlast (fst y) = wd @ [d] \<longrightarrow>
               valid_name (last (fst y)) \<and> is_dir G (wd @ [d])"
    and A4: "\<forall>y \<in> set G. in_dir wd d m (fst y) \<and> st_ctime (snd y) < cutoff \<longrightarrow> is_file (snd y)"
  shows "cleanup_dir wd cutoff d m G cleaned =
     (None,
      filter (\<lambda>y. \<not> (in_dir wd d m (fst y) \<and> st_ctime (snd y) < cutoff)) G,
      cleaned @ old_paths wd cutoff d m G)"
proof -
  let ?f = "\<lambda>y :: path \<times> node. child_path d (last (fst y))"
  let ?old = "\<lambda>y :: path \<times> node. st_ctime (snd y) < cutoff"
  let ?E = "filter (\<lambda>y. in_dir wd d m (fst y)) G"
  have res: "os_resolve G wd d = Inr (wd @ [d])"
    using assms(2,3) by (rule os_resolve_dir)
  have op: "old_paths wd cutoff d m G = map ?f (filter (\<lambda>y. in_dir wd d m (fst y) \<and> ?old y) G)"
    by (simp add: old_paths_def case_prod_unfold)
  show ?thesis
  proof (cases "is_dir G (wd @ [d])")
    case True
    then obtain t where t: "map_of G (wd @ [d]) = Some (Dir t)"
      by (auto dest: is_dir_Some)
    have ex: "os_path_exists G wd d"
      by (simp add: os_path_exists_def os_stat_def res t)
    have gl: "glob G wd d m = map ?f ?E"
      by (simp add: glob_def res t in_dir_def case_prod_unfold)
    have lp: "cleanup_loop wd cutoff (map ?f ?E) G cleaned =
       (None, filter (\<lambda>y. \<not> (y \<in> set ?E \<and> ?old y)) G, cleaned @ map ?f (filter ?old ?E))"
    proof (rule cleanup_loop_spec [OF assms(1,2) True assms(3)])
      show "set ?E \<subseteq> set G" by auto
      show "distinct (map fst ?E)"
        using assms(1) by (simp add: distinct_map_filter)
      show "\<forall>y \<in> set ?E. fst y \<noteq> [] \<and> butlast (fst y) = wd @ [d] \<and>
              valid_name (last (fst y)) \<and> (?old y \<longrightarrow> is_file (snd y))"
        using A3 A4 by (auto simp: in_dir_def)
    qed
    have e1: "filter (\<lambda>y. \<not> (y \<in> set ?E \<and> ?old y)) G
              = filter (\<lambda>y. \<not> (in_dir wd d m (fst y) \<and> ?old y)) G"
      by (intro filter_cong) auto
    have e2: "filter ?old ?E = filter (\<lambda>y. in_dir wd d m (fst y) \<and> ?old y) G"
      by (simp add: conj_commute)
    have "cleanup_dir wd cutoff d m G cleaned = cleanup_loop wd cutoff (map ?f ?E) G cleaned"
      by (simp only: cleanup_dir_def ex gl if_True)
    then show ?thesis
      by (simp only: lp e1 e2 op)
  next
    case False
    with A3 have none: "\<forall>y \<in> set G. \<not> in_dir wd d m (fst y)"
      by (auto simp: in_dir_def)
    have e1: "filter (\<lambda>y. \<not> (in_dir wd d m (fst y) \<and> ?old y)) G = G"
      using none by (simp add: filter_id_conv)
    have e2: "filter (\<lambda>y. in_dir wd d m (fst y) \<and> ?old y) G = []"
      using none by (simp add: filter_empty_conv)
    have h: "cleanup_dir wd cutoff d m G cleaned = (None, G, cleaned)"
    proof (cases "map_of G (wd @ [d])")
      case None
      then have "\<not> os_path_exists G wd d"
        by (simp add: os_path_exists_def os_stat_def res)
      then show ?thesis by (simp add: cleanup_dir_def)
    next
      case (Some n)
      with False obtain t b where "n = File t b"
        by (cases n) (auto simp: is_dir_def)
      with Some have "glob G wd d m = []"
        by (simp add: glob_def res)
      then show ?thesis by (simp add: cleanup_dir_def)
    qed
    show ?thesis
      by (simp only: h e1 e2 op list.map append_Nil2)
  qed
qed

lemma valid_names [simp]: "valid_name ''outputs''" "valid_name ''uploads''"
  by (simp_all add: valid_name_def)

lemma not_both_dirs:
  "in_dir wd ''outputs'' m k \<Longrightarrow> \<not> in_dir wd ''uploads'' m' k"
  by (auto simp: in_dir_def)

lemma cleanup_enabled:
  assumes en: "auto_cleanup cfg"
    and wf: "fs_wf (fs s)"
    and wd: "is_dir (fs s) (cwd s)"
    and files: "list_all (\<lambda>(k, n). cleanup_target (cwd s) k \<and> st_ctime n < cutoff_time cfg ev
                  \<longrightarrow> is_file n) (fs s)"
  shows "cleanup_old_files cfg ev s =
     (Inr \<lparr>cleanup_success = True,
           cleaned_files =
             old_paths (cwd s) (cutoff_time cfg ev) ''outputs'' (ends_with ''.wav'') (fs s) @
             old_paths (cwd s) (cutoff_time cfg ev) ''uploads'' (\<lambda>nm. True) (fs s),
           cleanup_message = Cleaned (length
             (old_paths (cwd s) (cutoff_time cfg ev) ''outputs'' (ends_with ''.wav'') (fs s) @
              old_paths (cwd s) (cutoff_time cfg ev) ''uploads'' (\<lambda>nm. True) (fs s)))\<rparr>,
      s\<lparr>fs := filter (\<lambda>(k, n). \<not> (cleanup_target (cwd s) k \<and> st_ctime n < cutoff_time cfg ev))
                 (fs s)\<rparr>)"
proof -
  let ?F = "fs s" and ?wd = "cwd s" and ?c = "cutoff_time cfg ev"
  let ?out = "\<lambda>y :: path \<times> node. in_dir ?wd ''outputs'' (ends_with ''.wav'') (fst y)"
  let ?up = "\<lambda>y :: path \<times> node. in_dir ?wd ''uploads'' (\<lambda>nm. True) (fst y)"
  let ?old = "\<lambda>y :: path \<times> node. st_ctime (snd y) < ?c"
  let ?F1 = "filter (\<lambda>y. \<not> (?out y \<and> ?old y)) ?F"
  let ?F2 = "filter (\<lambda>y. \<not> (?up y \<and> ?old y)) ?F1"
  let ?c1 = "old_paths ?wd ?c ''outputs'' (ends_with ''.wav'') ?F"
  from wf have dist: "distinct (map fst ?F)"
    and par: "\<forall>y \<in> set ?F. fst y \<noteq> [] \<longrightarrow> valid_name (last (fst y)) \<and> is_dir ?F (butlast (fst y))"
    by (auto simp: fs_wf_def list_all_iff)
  from files have fl: "\<forall>y \<in> set ?F. cleanup_target ?wd (fst y) \<and> ?old y \<longrightarrow> is_file (snd y)"
    by (auto simp: list_all_iff)
  have "cleanup_dir ?wd ?c ''outputs'' (ends_with ''.wav'') ?F [] = (None, ?F1, [] @ ?c1)"
  proof (rule cleanup_dir_spec [OF dist wd])
    show "valid_name ''outputs''" by simp
    show "\<forall>y \<in> set ?F. fst y \<noteq> [] \<and> butlast (fst y) = ?wd @ [''outputs''] \<longrightarrow>
            valid_name (last (fst y)) \<and> is_dir ?F (?wd @ [''outputs''])"
      using par by auto
    show "\<forall>y \<in> set ?F. ?out y \<and> ?old y \<longrightarrow> is_file (snd y)"
      using fl by (auto simp: cleanup_target_def)
  qed
  then have 1: "cleanup_dir ?wd ?c ''outputs'' (ends_with ''.wav'') ?F [] = (None, ?F1, ?c1)"
    by (simp only: append_Nil)
  have dist1: "distinct (map fst ?F1)"
    using dist by (simp add: distinct_map_filter)
  have keep: "is_dir ?F1 p" if "is_dir ?F p" for p
  proof (rule is_dir_filter [OF dist that], intro ballI impI)
    fix y assume y: "y \<in> set ?F" "fst y = p"
    from that obtain t where "map_of ?F p = Some (Dir t)"
      by (auto dest: is_dir_Some)
    with dist y have "snd y = Dir t"
      by (metis map_of_SomeD eq_key_imp_eq_value prod.collapse)
    with fl y(1) show "\<not> (?out y \<and> ?old y)"
      by (auto simp: cleanup_target_def)
  qed
  have 2: "cleanup_dir ?wd ?c ''uploads'' (\<lambda>nm. True) ?F1 ?c1 =
             (None, ?F2, ?c1 @ old_paths ?wd ?c ''uploads'' (\<lambda>nm. True) ?F1)"
  proof (rule cleanup_dir_spec [OF dist1 keep [OF wd]])
    show "valid_name ''uploads''" by simp
    show "\<forall>y \<in> set ?F1. fst y \<noteq> [] \<and> butlast (fst y) = ?wd @ [''uploads''] \<longrightarrow>
            valid_name (last (fst y)) \<and> is_dir ?F1 (?wd @ [''uploads''])"
      using par keep by auto
    show "\<forall>y \<in> set ?F1. ?up y \<and> ?old y \<longrightarrow> is_file (snd y)"
      using fl by (auto simp: cleanup_target_def)
  qed
  have e1: "?F2 = filter (\<lambda>(k, n). \<not> (cleanup_target ?wd k \<and> st_ctime n < ?c)) ?F"
    by (auto simp: cleanup_target_def case_prod_unfold intro!: filter_cong)
  have e2: "old_paths ?wd ?c ''uploads'' (\<lambda>nm. True) ?F1
            = old_paths ?wd ?c ''uploads'' (\<lambda>nm. True) ?F"
  proof -
    have "filter (\<lambda>y. ?up y \<and> ?old y) ?F1 = filter (\<lambda>y. ?up y \<and> ?old y) ?F"
      by (auto simp: not_both_dirs intro!: filter_cong)
    then show ?thesis
      by (simp add: old_paths_def case_prod_unfold)
  qed
  from en have en': "auto_cleanup cfg = True"
    by simp
  show ?thesis
    by (simp only: cleanup_old_files_def en' if_True 1 2 prod.case option.case
        e1 [symmetric] e2)
qed

lemma age_cutoff:
  "st_ctime n < cutoff_time cfg ev \<longleftrightarrow> real_of_int (max_file_age cfg) < time_start ev - st_ctime n"
  by (auto simp: cutoff_time_def)

text \<open>
  Claim C4, as amended. With auto-cleanup disabled, \<^verbatim>\<open>cleanup_old_files\<close> changes nothing
  and raises an error whose text carries the message that the feature is not enabled.
  With it enabled, on a well-formed file system whose working directory exists and in
  which no directory is among the old entries the loops look at, an entry is removed if
  and only if it is a \<^verbatim>\<open>*.wav\<close> entry of the outputs directory or any entry of the uploads
  directory and its age \<^verbatim>\<open>now - st_ctime\<close> is strictly greater than \<^verbatim>\<open>max_file_age\<close>; the
  operation returns the paths of the removed entries, outputs first, each in the order
  of the directory scan.
\<close>

theorem cleanup_removes_exactly_old_targets:
  "(\<not> auto_cleanup cfg \<longrightarrow>
      cleanup_old_files cfg ev s =
        (Inl (HTTPException 500
               (Prefixed Cleanup_failed (HTTPException 400 (Lit Cleanup_not_enabled)))), s)) \<and>
   (auto_cleanup cfg \<longrightarrow> fs_wf (fs s) \<longrightarrow> is_dir (fs s) (cwd s) \<longrightarrow>
    list_all (\<lambda>(k, n). cleanup_target (cwd s) k \<and> st_ctime n < cutoff_time cfg ev
                \<longrightarrow> is_file n) (fs s) \<longrightarrow>
      cleanup_old_files cfg ev s =
        (Inr \<lparr>cleanup_success = True,
              cleaned_files =
                old_paths (cwd s) (cutoff_time cfg ev) ''outputs'' (ends_with ''.wav'') (fs s) @
                old_paths (cwd s) (cutoff_time cfg ev) ''uploads'' (\<lambda>nm. True) (fs s),
              cleanup_message = Cleaned (length
                (old_paths (cwd s) (cutoff_time cfg ev) ''outputs'' (ends_with ''.wav'') (fs s) @
                 old_paths (cwd s) (cutoff_time cfg ev) ''uploads'' (\<lambda>nm. True) (fs s)))\<rparr>,
         s\<lparr>fs := filter (\<lambda>(k, n). \<not> (cleanup_target (cwd s) k \<and>
                                     real_of_int (max_file_age cfg) < time_start ev - st_ctime n))
                    (fs s)\<rparr>))"
proof (intro conjI impI)
  assume "\<not> auto_cleanup cfg"
  then show "cleanup_old_files cfg ev s =
        (Inl (HTTPException 500
               (Prefixed Cleanup_failed (HTTPException 400 (Lit Cleanup_not_enabled)))), s)"
    by (simp add: cleanup_old_files_def cleanup_failed_def)
next
  assume a: "auto_cleanup cfg" "fs_wf (fs s)" "is_dir (fs s) (cwd s)"
    "list_all (\<lambda>(k, n). cleanup_target (cwd s) k \<and> st_ctime n < cutoff_time cfg ev
                \<longrightarrow> is_file n) (fs s)"
  have e: "(\<lambda>(k, n). \<not> (cleanup_target (cwd s) k \<and>
                          real_of_int (max_file_age cfg) < time_start ev - st_ctime n))
           = (\<lambda>(k, n). \<not> (cleanup_target (cwd s) k \<and> st_ctime n < cutoff_time cfg ev))"
    by (simp only: age_cutoff)
  show "cleanup_old_files cfg ev s =
        (Inr \<lparr>cleanup_success = True,
              cleaned_files =
                old_paths (cwd s) (cutoff_time cfg ev) ''outputs'' (ends_with ''.wav'') (fs s) @
                old_paths (cwd s) (cutoff_time cfg ev) ''uploads'' (\<lambda>nm. True) (fs s),
              cleanup_message = Cleaned (length
                (old_paths (cwd s) (cutoff_time cfg ev) ''outputs'' (ends_with ''.wav'') (fs s) @
                 old_paths (cwd s) (cutoff_time cfg ev) ''uploads'' (\<lambda>nm. True) (fs s)))\<rparr>,
         s\<lparr>fs := filter (\<lambda>(k, n). \<not> (cleanup_target (cwd s) k \<and>
                                     real_of_int (max_file_age cfg) < time_start ev - st_ctime n))
                    (fs s)\<rparr>)"
    unfolding e by (rule cleanup_enabled [OF a])
qed

lemmas cleanup_eval =
  cleanup_example_state_def cleanup_example_fs_def get_config_def example_env_def
  cutoff_time_def old_paths_def in_dir_def cleanup_target_def ends_with_def child_path_def
  fs_wf_def is_dir_def valid_name_def init_stats_def

theorem cleanup_removes_exactly_old_targets_witness:
  "\<not> auto_cleanup default_config \<and>
   cleanup_old_files default_config example_env cleanup_example_state =
     (Inl (HTTPException 500
            (Prefixed Cleanup_failed (HTTPException 400 (Lit Cleanup_not_enabled)))),
      cleanup_example_state) \<and>
   auto_cleanup (get_config 50 True 90) \<and>
   fs_wf (fs cleanup_example_state) \<and>
   is_dir (fs cleanup_example_state) (cwd cleanup_example_state) \<and>
   cutoff_time (get_config 50 True 90) example_env = 10 \<and>
   cleanup_old_files (get_config 50 True 90) example_env cleanup_example_state =
     (Inr \<lparr>cleanup_success = True,
           cleaned_files = [''outputs/old.wav'', ''uploads/old.bin''],
           cleanup_message = Cleaned 2\<rparr>,
      cleanup_example_state
        \<lparr>fs := [([], Dir 0),
                ([''outputs''], Dir 0),
                ([''uploads''], Dir 0),
                ([''outputs'', ''edge.wav''], File 10 ''RIFF''),
                ([''outputs'', ''old.txt''], File 5 ''log''),
                ([''outputs'', ''new.wav''], File 50 ''RIFF''),
                ([''uploads'', ''new.wav''], File 50 ''RIFF'')]\<rparr>)"
proof -
  let ?cfg = "get_config 50 True 90"
  let ?s = cleanup_example_state
  have n: "\<not> auto_cleanup default_config"
    by (simp add: default_config_def get_config_def)
  with cleanup_removes_exactly_old_targets [of default_config example_env ?s]
  have o: "cleanup_old_files default_config example_env ?s =
     (Inl (HTTPException 500
            (Prefixed Cleanup_failed (HTTPException 400 (Lit Cleanup_not_enabled)))), ?s)"
    by blast
  have a: "auto_cleanup ?cfg"
    by (simp add: get_config_def)
  have w: "fs_wf (fs ?s)"
    by (simp add: cleanup_eval)
  have d: "is_dir (fs ?s) (cwd ?s)"
    by (simp add: cleanup_eval)
  have c: "cutoff_time ?cfg example_env = 10"
    by (simp add: cleanup_eval)
  have f: "list_all (\<lambda>(k, n). cleanup_target (cwd ?s) k \<and> st_ctime n < cutoff_time ?cfg example_env
                \<longrightarrow> is_file n) (fs ?s)"
    by (simp add: cleanup_eval)
  have p: "old_paths (cwd ?s) (cutoff_time ?cfg example_env) ''outputs'' (ends_with ''.wav'') (fs ?s) @
           old_paths (cwd ?s) (cutoff_time ?cfg example_env) ''uploads'' (\<lambda>nm. True) (fs ?s)
           = [''outputs/old.wav'', ''uploads/old.bin'']"
    by (simp add: cleanup_eval)
  have g: "filter (\<lambda>(k, n). \<not> (cleanup_target (cwd ?s) k \<and>
                    real_of_int (max_file_age ?cfg) < time_start example_env - st_ctime n))
             (fs ?s) =
           [([], Dir 0),
            ([''outputs''], Dir 0),
            ([''uploads''], Dir 0),
            ([''outputs'', ''edge.wav''], File 10 ''RIFF''),
            ([''outputs'', ''old.txt''], File 5 ''log''),
            ([''outputs'', ''new.wav''], File 50 ''RIFF''),
            ([''uploads'', ''new.wav''], File 50 ''RIFF'')]"
    by (simp add: cleanup_eval)
  have l: "length [''outputs/old.wav'', ''uploads/old.bin''] = 2"
    by simp
  from cleanup_removes_exactly_old_targets [of ?cfg example_env ?s] a w d f
  have "cleanup_old_files ?cfg example_env ?s =
        (Inr \<lparr>cleanup_success = True,
              cleaned_files =
                old_paths (cwd ?s) (cutoff_time ?cfg example_env) ''outputs'' (ends_with ''.wav'') (fs ?s) @
                old_paths (cwd ?s) (cutoff_time ?cfg example_env) ''uploads'' (\<lambda>nm. True) (fs ?s),
              cleanup_message = Cleaned (length
                (old_paths (cwd ?s) (cutoff_time ?cfg example_env) ''outputs'' (ends_with ''.wav'') (fs ?s) @
                 old_paths (cwd ?s) (cutoff_time ?cfg example_env) ''uploads'' (\<lambda>nm. True) (fs ?s)))\<rparr>,
         ?s\<lparr>fs := filter (\<lambda>(k, n). \<not> (cleanup_target (cwd ?s) k \<and>
                          real_of_int (max_file_age ?cfg) < time_start example_env - st_ctime n))
                    (fs ?s)\<rparr>)"
    by blast
  then have r: "cleanup_old_files ?cfg example_env ?s =
     (Inr \<lparr>cleanup_success = True,
           cleaned_files = [''outputs/old.wav'', ''uploads/old.bin''],
           cleanup_message = Cleaned 2\<rparr>,
      ?s\<lparr>fs := [([], Dir 0),
                ([''outputs''], Dir 0),
                ([''uploads''], Dir 0),
                ([''outputs'', ''edge.wav''], File 10 ''RIFF''),
                ([''outputs'', ''old.txt''], File 5 ''log''),
                ([''outputs'', ''new.wav''], File 50 ''RIFF''),
                ([''uploads'', ''new.wav''], File 50 ''RIFF'')]\<rparr>)"
    by (simp only: p g l)
  show ?thesis
    by (rule conjI [OF n conjI [OF o conjI [OF a conjI [OF w conjI [OF d conjI [OF c r]]]]]])
qed

text \<open>The claim as stated fails: with \<^verbatim>\<open>max_file_age\<close> 90 and the clock at 100, the file
  \<^verbatim>\<open>outputs/edge.wav\<close> has age exactly 90 and is kept, and \<^verbatim>\<open>outputs/old.txt\<close> has age 95
  and is kept, being no \<^verbatim>\<open>*.wav\<close> file.\<close>

theorem cleanup_keeps_file_of_age_max_age:
  "auto_cleanup (get_config 50 True 90) \<and>
   max_file_age (get_config 50 True 90) = 90 \<and>
   map_of (fs cleanup_example_state) [''outputs'', ''edge.wav''] = Some (File 10 ''RIFF'') \<and>
   time_start example_env - st_ctime (File 10 ''RIFF'') = 90 \<and>
   map_of (fs (snd (cleanup_old_files (get_config 50 True 90) example_env cleanup_example_state)))
     [''outputs'', ''edge.wav''] = Some (File 10 ''RIFF'') \<and>
   map_of (fs cleanup_example_state) [''outputs'', ''old.txt''] = Some (File 5 ''log'') \<and>
   time_start example_env - st_ctime (File 5 ''log'') = 95 \<and>
   map_of (fs (snd (cleanup_old_files (get_config 50 True 90) example_env cleanup_example_state)))
     [''outputs'', ''old.txt''] = Some (File 5 ''log'') \<and>
   cleaned_files (projr (fst (cleanup_old_files (get_config 50 True 90) example_env
     cleanup_example_state))) = [''outputs/old.wav'', ''uploads/old.bin'']"
  by (simp add: cleanup_old_files_def cleanup_dir_def glob_def cleanup_eval fs_defs)

end
